theory Spec2Isabelle
  imports Complex_Main "HOL-Library.Multiset"
begin

section \<open>Python values used by app.py\<close>

subsection \<open>Strings\<close>

text \<open>
  A Python \<open>str\<close> is a sequence of Unicode code points; it is modelled as a list of
  code points. \<open>str\<close> embeds an ASCII literal.
\<close>

type_synonym pystr = "nat list"

definition str :: "string \<Rightarrow> pystr" where
  "str s = map of_char s"

definition colon :: nat where
  "colon = 58"

text \<open>The code points for which Python's \<open>str.isspace\<close> holds; \<open>str.strip()\<close> removes them.\<close>

definition py_isspace :: "nat \<Rightarrow> bool" where
  "py_isspace c \<longleftrightarrow>
     (9 \<le> c \<and> c \<le> 13) \<or> (28 \<le> c \<and> c \<le> 32) \<or> c = 133 \<or> c = 160 \<or> c = 5760 \<or>
     (8192 \<le> c \<and> c \<le> 8202) \<or> c = 8232 \<or> c = 8233 \<or> c = 8239 \<or> c = 8287 \<or> c = 12288"

text \<open>\<open>s.strip()\<close>: leading and trailing whitespace removed.\<close>

definition py_strip :: "pystr \<Rightarrow> pystr" where
  "py_strip s = rev (dropWhile py_isspace (rev (dropWhile py_isspace s)))"

text \<open>\<open>s.split(sep)\<close> for a one-character separator: never the empty list.\<close>

fun py_split :: "nat \<Rightarrow> pystr \<Rightarrow> pystr list" where
  "py_split sep [] = [[]]"
| "py_split sep (c # cs) =
     (if c = sep then [] # py_split sep cs
      else (c # hd (py_split sep cs)) # tl (py_split sep cs))"

subsection \<open>Exceptions\<close>

datatype exn =
    FileNotFoundError
  | EmptyDataError
  | ParserError
  | KeyError pystr
  | ValueError
  | UnicodeDecodeError
  | PermissionError
  | TypeError
  | AttributeError
  | IndexError

text \<open>A computation that may raise: \<open>Inl\<close> is the exception raised.\<close>

definition bindE :: "exn + 'a \<Rightarrow> ('a \<Rightarrow> exn + 'b) \<Rightarrow> exn + 'b" where
  "bindE m f = (case m of Inl e \<Rightarrow> Inl e | Inr v \<Rightarrow> f v)"

text \<open>An element-wise operation over a column; the first raising element raises.\<close>

fun mapE :: "('a \<Rightarrow> exn + 'b) \<Rightarrow> 'a list \<Rightarrow> exn + 'b list" where
  "mapE f [] = Inr []"
| "mapE f (v # vs) = bindE (f v) (\<lambda>w. bindE (mapE f vs) (\<lambda>ws. Inr (w # ws)))"

text \<open>\<open>xs[i]\<close> for a non-negative index.\<close>

definition py_index :: "'a list \<Rightarrow> nat \<Rightarrow> exn + 'a" where
  "py_index xs i = (if i < length xs then Inr (xs ! i) else Inl IndexError)"

subsection \<open>Floating-point values\<close>

text \<open>
  A float64 is a finite value, an infinity or NaN. The special values follow IEEE 754 as
  numpy computes them (division by zero does not raise). Finite arithmetic is exact:
  rounding, overflow to infinity and the sign of zero are not modelled.
\<close>

datatype pyfloat = Fin real | PInf | NInf | NaN

fun isnan :: "pyfloat \<Rightarrow> bool" where
  "isnan NaN = True"
| "isnan _ = False"

fun isfinite :: "pyfloat \<Rightarrow> bool" where
  "isfinite (Fin _) = True"
| "isfinite _ = False"

fun fneg :: "pyfloat \<Rightarrow> pyfloat" where
  "fneg (Fin a) = Fin (- a)"
| "fneg PInf = NInf"
| "fneg NInf = PInf"
| "fneg NaN = NaN"

fun fdiv :: "pyfloat \<Rightarrow> pyfloat \<Rightarrow> pyfloat" where
  "fdiv (Fin a) (Fin b) =
     (if b \<noteq> 0 then Fin (a / b)
      else if 0 < a then PInf else if a < 0 then NInf else NaN)"
| "fdiv (Fin a) PInf = Fin 0"
| "fdiv (Fin a) NInf = Fin 0"
| "fdiv PInf (Fin b) = (if b < 0 then NInf else PInf)"
| "fdiv NInf (Fin b) = (if b < 0 then PInf else NInf)"
| "fdiv _ _ = NaN"

fun fmul :: "pyfloat \<Rightarrow> pyfloat \<Rightarrow> pyfloat" where
  "fmul (Fin a) (Fin b) = Fin (a * b)"
| "fmul NaN _ = NaN"
| "fmul _ NaN = NaN"
| "fmul (Fin a) v = (if 0 < a then v else if a < 0 then fneg v else NaN)"
| "fmul v (Fin b) = (if 0 < b then v else if b < 0 then fneg v else NaN)"
| "fmul PInf v = v"
| "fmul NInf v = fneg v"

fun fadd :: "pyfloat \<Rightarrow> pyfloat \<Rightarrow> pyfloat" where
  "fadd (Fin a) (Fin b) = Fin (a + b)"
| "fadd NaN _ = NaN"
| "fadd _ NaN = NaN"
| "fadd (Fin a) v = v"
| "fadd v (Fin b) = v"
| "fadd PInf PInf = PInf"
| "fadd NInf NInf = NInf"
| "fadd _ _ = NaN"

text \<open>\<open>a <= b\<close> on floats: false whenever one side is NaN.\<close>

fun fle :: "pyfloat \<Rightarrow> pyfloat \<Rightarrow> bool" where
  "fle NaN _ = False"
| "fle _ NaN = False"
| "fle NInf _ = True"
| "fle _ PInf = True"
| "fle (Fin a) (Fin b) = (a \<le> b)"
| "fle _ _ = False"

subsection \<open>Table cells and tables\<close>

text \<open>
  A cell of a DataFrame: a number (int64 and float64 columns, NaN for a missing value), a
  string (object columns), a timestamp or the missing timestamp NaT (datetime64 columns).
\<close>

datatype cell = Num pyfloat | Str pystr | Date int | NaT

text \<open>
  A DataFrame is its column labels and its rows, each row aligned with the labels. The
  row index is positional.
\<close>

record frame =
  columns :: "pystr list"
  rows :: "cell list list"

text \<open>\<open>pd.DataFrame()\<close>\<close>

definition DataFrame :: frame where
  "DataFrame = \<lparr>columns = [], rows = []\<rparr>"

text \<open>\<open>df.empty\<close>: some axis has length 0.\<close>

definition df_empty :: "frame \<Rightarrow> bool" where
  "df_empty df \<longleftrightarrow> columns df = [] \<or> rows df = []"

text \<open>Position of a column label (the first one, labels from \<open>read_csv\<close> being distinct).\<close>

fun col_index :: "pystr \<Rightarrow> pystr list \<Rightarrow> nat option" where
  "col_index n [] = None"
| "col_index n (c # cs) =
     (if c = n then Some 0 else map_option Suc (col_index n cs))"

text \<open>\<open>df[name]\<close>: the column, or KeyError.\<close>

definition getitem :: "frame \<Rightarrow> pystr \<Rightarrow> exn + cell list" where
  "getitem df n =
     (case col_index n (columns df) of
        None \<Rightarrow> Inl (KeyError n)
      | Some i \<Rightarrow> Inr (map (\<lambda>r. r ! i) (rows df)))"

text \<open>\<open>df[name] = values\<close>: replaces the column, or appends a new one.\<close>

definition setitem :: "frame \<Rightarrow> pystr \<Rightarrow> cell list \<Rightarrow> frame" where
  "setitem df n vs =
     (case col_index n (columns df) of
        Some i \<Rightarrow> df\<lparr>rows := map2 (\<lambda>r v. r[i := v]) (rows df) vs\<rparr>
      | None \<Rightarrow> \<lparr>columns = columns df @ [n], rows = map2 (\<lambda>r v. r @ [v]) (rows df) vs\<rparr>)"

text \<open>\<open>df.rename(columns=m)\<close>: labels absent from the table are ignored.\<close>

definition rename :: "(pystr \<times> pystr) list \<Rightarrow> frame \<Rightarrow> frame" where
  "rename m df =
     df\<lparr>columns := map (\<lambda>c. case map_of m c of Some c' \<Rightarrow> c' | None \<Rightarrow> c) (columns df)\<rparr>"

text \<open>\<open>df[mask]\<close> for a boolean mask: the rows where the mask is true, in their order.\<close>

definition boolean_index :: "frame \<Rightarrow> bool list \<Rightarrow> frame" where
  "boolean_index df msk = df\<lparr>rows := map snd (filter fst (zip msk (rows df)))\<rparr>"

text \<open>\<open>df[[n1, n2, ...]]\<close>: the listed columns in the listed order, or KeyError.\<close>

definition getitem_list :: "frame \<Rightarrow> pystr list \<Rightarrow> exn + frame" where
  "getitem_list df ns =
     bindE (mapE (\<lambda>n. case col_index n (columns df) of
                         None \<Rightarrow> Inl (KeyError n) | Some i \<Rightarrow> Inr i) ns)
       (\<lambda>is. Inr \<lparr>columns = ns, rows = map (\<lambda>r. map (\<lambda>i. r ! i) is) (rows df)\<rparr>)"

text \<open>The value at row \<open>k\<close> and column \<open>n\<close>, when both exist (used to state properties).\<close>

definition cell_at :: "frame \<Rightarrow> nat \<Rightarrow> pystr \<Rightarrow> cell option" where
  "cell_at df k n =
     (case col_index n (columns df) of
        None \<Rightarrow> None
      | Some i \<Rightarrow> if k < length (rows df) then Some (rows df ! k ! i) else None)"

text \<open>Every row has one cell per column.\<close>

definition aligned :: "frame \<Rightarrow> bool" where
  "aligned df \<longleftrightarrow> list_all (\<lambda>r. length r = length (columns df)) (rows df)"

subsection \<open>Operations on columns\<close>

text \<open>
  \<open>a / b\<close> on two cells: numpy's true division on numbers (no exception on a zero
  divisor); any other operand raises TypeError.
\<close>

fun cell_truediv :: "cell \<Rightarrow> cell \<Rightarrow> exn + pyfloat" where
  "cell_truediv (Num a) (Num b) = Inr (fdiv a b)"
| "cell_truediv _ _ = Inl TypeError"

text \<open>\<open>s1 / s2\<close> on two columns of one table: a float64 column.\<close>

definition series_truediv :: "cell list \<Rightarrow> cell list \<Rightarrow> exn + pyfloat list" where
  "series_truediv xs ys = mapE (\<lambda>(a, b). cell_truediv a b) (zip xs ys)"

text \<open>\<open>s * k\<close> on a float64 column, as a column of cells.\<close>

definition series_mul :: "pyfloat list \<Rightarrow> real \<Rightarrow> cell list" where
  "series_mul q k = map (\<lambda>a. Num (fmul a (Fin k))) q"

text \<open>\<open>s.isin(values)\<close>: membership, a missing value matching a missing value.\<close>

definition series_isin :: "cell list \<Rightarrow> cell list \<Rightarrow> bool list" where
  "series_isin s vals = map (\<lambda>c. c \<in> set vals) s"

text \<open>
  \<open>s >= t\<close> and \<open>s <= t\<close> for a timestamp \<open>t\<close>: false on NaT, TypeError on a cell that is
  not a timestamp.
\<close>

fun cell_ge :: "int \<Rightarrow> cell \<Rightarrow> exn + bool" where
  "cell_ge t (Date d) = Inr (t \<le> d)"
| "cell_ge t NaT = Inr False"
| "cell_ge t _ = Inl TypeError"

fun cell_le :: "int \<Rightarrow> cell \<Rightarrow> exn + bool" where
  "cell_le t (Date d) = Inr (d \<le> t)"
| "cell_le t NaT = Inr False"
| "cell_le t _ = Inl TypeError"

text \<open>\<open>s == v\<close> on one cell: NaN and NaT equal nothing.\<close>

fun cell_eq :: "cell \<Rightarrow> cell \<Rightarrow> bool" where
  "cell_eq (Num a) (Num b) = (\<not> isnan a \<and> a = b)"
| "cell_eq (Str a) (Str b) = (a = b)"
| "cell_eq (Date a) (Date b) = (a = b)"
| "cell_eq _ _ = False"

text \<open>\<open>m1 & m2\<close> on boolean columns.\<close>

definition series_and :: "bool list \<Rightarrow> bool list \<Rightarrow> bool list" where
  "series_and m1 m2 = map2 (\<and>) m1 m2"

text \<open>\<open>s.unique()\<close>: the distinct values in order of first appearance.\<close>

primrec uniques :: "'a list \<Rightarrow> 'a list \<Rightarrow> 'a list" where
  "uniques seen [] = []"
| "uniques seen (v # vs) =
     (if v \<in> set seen then uniques seen vs else v # uniques (v # seen) vs)"

definition unique :: "'a list \<Rightarrow> 'a list" where
  "unique vs = uniques [] vs"

text \<open>
  The numeric reductions read float64 values. A cell that is not a number raises
  TypeError here; no such cell reaches them in \<open>app\<close>, the loader's divisions raising on
  it first.
\<close>

fun as_float :: "cell \<Rightarrow> exn + pyfloat" where
  "as_float (Num a) = Inr a"
| "as_float _ = Inl TypeError"

text \<open>\<open>s.sum()\<close> with the default \<open>skipna=True\<close>.\<close>

definition nansum :: "pyfloat list \<Rightarrow> pyfloat" where
  "nansum vs = foldl fadd (Fin 0) (filter (\<lambda>v. \<not> isnan v) vs)"

definition series_sum :: "cell list \<Rightarrow> exn + pyfloat" where
  "series_sum s = bindE (mapE as_float s) (\<lambda>vs. Inr (nansum vs))"

text \<open>\<open>s.mean()\<close> with the default \<open>skipna=True\<close>: NaN is left out, infinities are not.\<close>

definition nanmean :: "pyfloat list \<Rightarrow> pyfloat" where
  "nanmean vs =
     (let nn = filter (\<lambda>v. \<not> isnan v) vs
      in if nn = [] then NaN else fdiv (foldl fadd (Fin 0) nn) (Fin (real (length nn))))"

definition series_mean :: "cell list \<Rightarrow> exn + pyfloat" where
  "series_mean s = bindE (mapE as_float s) (\<lambda>vs. Inr (nanmean vs))"

subsection \<open>Sorting\<close>

text \<open>
  pandas' \<open>nargsort\<close>, behind \<open>sort_values\<close> with \<open>na_position='last'\<close>: the positions of the
  values that are not NaN are sorted by \<open>argsort\<close> (for a descending sort on the reversed
  sequence, the result reversed again), and the positions of the NaN values follow.
  \<open>argsort\<close> is numpy's \<open>argsort(kind='quicksort')\<close>, the default kind of \<open>sort_values\<close>; it
  is a parameter of the model.
\<close>

definition nargsort :: "(pyfloat list \<Rightarrow> nat list) \<Rightarrow> bool \<Rightarrow> pyfloat list \<Rightarrow> nat list" where
  "nargsort argsort ascending items =
     (let idx = [0..<length items];
          non_nan_idx0 = filter (\<lambda>i. \<not> isnan (items ! i)) idx;
          nan_idx = filter (\<lambda>i. isnan (items ! i)) idx;
          non_nan_idx = (if ascending then non_nan_idx0 else rev non_nan_idx0);
          non_nans = map (\<lambda>i. items ! i) non_nan_idx;
          indexer0 = map (\<lambda>j. non_nan_idx ! j) (argsort non_nans);
          indexer = (if ascending then indexer0 else rev indexer0)
      in indexer @ nan_idx)"

text \<open>\<open>df.sort_values(by, ascending=...)\<close> on a numeric column.\<close>

definition sort_values ::
  "(pyfloat list \<Rightarrow> nat list) \<Rightarrow> frame \<Rightarrow> pystr \<Rightarrow> bool \<Rightarrow> exn + frame" where
  "sort_values argsort df by ascending =
     bindE (getitem df by) (\<lambda>k.
     bindE (mapE as_float k) (\<lambda>items.
     Inr (df\<lparr>rows := map (\<lambda>i. rows df ! i) (nargsort argsort ascending items)\<rparr>)))"

text \<open>
  What numpy documents of \<open>argsort(kind='quicksort')\<close>: on values without NaN the result
  is a permutation of the positions that puts the values in ascending order. The order
  of equal values is not part of it.
\<close>

definition argsort_contract :: "(pyfloat list \<Rightarrow> nat list) \<Rightarrow> bool" where
  "argsort_contract argsort \<longleftrightarrow>
     (\<forall>vs. (\<forall>v \<in> set vs. \<not> isnan v) \<longrightarrow>
        mset (argsort vs) = mset [0..<length vs] \<and>
        sorted_wrt fle (map (\<lambda>i. vs ! i) (argsort vs)))"

text \<open>
  Two sorts that meet the contract, by insertion: \<open>argsort_stable\<close> keeps equal values in
  their order, \<open>argsort_reversing\<close> puts them in reverse order.
\<close>

fun flt :: "pyfloat \<Rightarrow> pyfloat \<Rightarrow> bool" where
  "flt a b = (fle a b \<and> \<not> fle b a)"

fun insert_index :: "(pyfloat \<Rightarrow> pyfloat \<Rightarrow> bool) \<Rightarrow> pyfloat list \<Rightarrow> nat \<Rightarrow> nat list \<Rightarrow> nat list" where
  "insert_index precedes vs i [] = [i]"
| "insert_index precedes vs i (j # js) =
     (if precedes (vs ! i) (vs ! j) then i # j # js else j # insert_index precedes vs i js)"

definition argsort_stable :: "pyfloat list \<Rightarrow> nat list" where
  "argsort_stable vs = foldl (\<lambda>js i. insert_index flt vs i js) [] [0..<length vs]"


section \<open>app.py\<close>

subsection \<open>Column labels\<close>

definition Nombre_de_la_campana :: pystr where
  "Nombre_de_la_campana = str ''Nombre de la campa'' @ [241] @ str ''a''"

definition Importe_gastado :: pystr where
  "Importe_gastado = str ''Importe gastado (BOB)''"

definition Impresiones :: pystr where
  "Impresiones = str ''Impresiones''"

definition Alcance :: pystr where
  "Alcance = str ''Alcance''"

definition Resultados :: pystr where
  "Resultados = str ''Resultados''"

definition Coste_por_resultados :: pystr where
  "Coste_por_resultados = str ''Coste por resultados''"

definition Inicio_del_informe :: pystr where
  "Inicio_del_informe = str ''Inicio del informe''"

definition Fin_del_informe :: pystr where
  "Fin_del_informe = str ''Fin del informe''"

definition Fin_col :: pystr where
  "Fin_col = str ''Fin''"

definition campana :: pystr where
  "campana = str ''campana''"

definition gasto :: pystr where
  "gasto = str ''gasto''"

definition impresiones :: pystr where
  "impresiones = str ''impresiones''"

definition alcance :: pystr where
  "alcance = str ''alcance''"

definition resultados :: pystr where
  "resultados = str ''resultados''"

definition costo_por_resultado :: pystr where
  "costo_por_resultado = str ''costo_por_resultado''"

definition CTR :: pystr where
  "CTR = str ''CTR''"

definition CPM :: pystr where
  "CPM = str ''CPM''"

text \<open>The \<open>columns=\<close> dictionary of the \<open>rename\<close> call (lines 29-36).\<close>

definition rename_map :: "(pystr \<times> pystr) list" where
  "rename_map =
     [(Nombre_de_la_campana, campana),
      (Importe_gastado, gasto),
      (Impresiones, impresiones),
      (Alcance, alcance),
      (Resultados, resultados),
      (Coste_por_resultados, costo_por_resultado)]"

text \<open>
  The column names the input file is expected to have (section 6 of the specification):
  the six renamed ones and the three date columns named in \<open>parse_dates\<close>.
\<close>

definition expected_columns :: "pystr list" where
  "expected_columns = map fst rename_map @ [Inicio_del_informe, Fin_del_informe, Fin_col]"

subsection \<open>What the page shows\<close>

text \<open>One trace of the line chart (\<open>go.Scatter\<close>, lines 151-158).\<close>

record trace =
  trace_x :: "cell list"
  trace_y :: "cell list"
  trace_name :: pystr
  trace_color :: string

text \<open>
  The elements a run puts on the page, in order, with the data each one is given. A
  metric carries its value before formatting. Headers, tabs and the static
  information panel carry no data and are left out.
\<close>

datatype ui =
    St_error exn
  | St_warning string
  | Metric string pyfloat
  | Scatter_chart frame
  | Bar_chart frame
  | Line_chart "trace list"
  | Dataframe frame

text \<open>
  How a run of the script ends: at its last line, at \<open>st.stop()\<close>, or with an exception
  that nothing catches; each with the elements shown until then.
\<close>

datatype outcome = Finished "ui list" | Stopped "ui list" | Raised "ui list" exn

subsection \<open>The loader (lines 19-46)\<close>

text \<open>
  The body of the \<open>try\<close> after \<open>read_csv\<close> has returned \<open>data\<close>: lines 29-42.
\<close>

definition cargar_body :: "frame \<Rightarrow> exn + frame" where
  "cargar_body data =
     (let df_clean = rename rename_map data in
      bindE (getitem df_clean resultados) (\<lambda>res.
      bindE (getitem df_clean impresiones) (\<lambda>imp.
      bindE (series_truediv res imp) (\<lambda>q.
      let df1 = setitem df_clean CTR (series_mul q 100) in
      bindE (getitem df1 gasto) (\<lambda>gas.
      bindE (getitem df1 impresiones) (\<lambda>imp2.
      bindE (series_truediv gas imp2) (\<lambda>q2.
      Inr (setitem df1 CPM (series_mul q2 1000)))))))))"

text \<open>The exception classes of the \<open>except\<close> clause (line 44).\<close>

fun caught :: "exn \<Rightarrow> bool" where
  "caught FileNotFoundError = True"
| "caught EmptyDataError = True"
| "caught (KeyError _) = True"
| "caught ParserError = True"
| "caught _ = False"

text \<open>
  \<open>cargar_datos\<close>. Its argument is what \<open>pd.read_csv\<close> did with the file: the table read,
  or the exception raised. The result is the messages shown and the table returned, or
  the exception that leaves the function. The cache of \<open>st.cache_data\<close> does not change
  what a call returns and is left out.
\<close>

definition cargar_datos :: "exn + frame \<Rightarrow> exn + (ui list \<times> frame)" where
  "cargar_datos read_csv =
     (case bindE read_csv cargar_body of
        Inr df_clean \<Rightarrow> Inr ([], df_clean)
      | Inl e \<Rightarrow> if caught e then Inr ([St_error e], DataFrame) else Inl e)"

subsection \<open>Sidebar (lines 56-82)\<close>

text \<open>
  The label of a campaign: \<open>x.split(":")[-1].strip()\<close> (lines 64 and 154).
\<close>

definition format_func :: "pystr \<Rightarrow> pystr" where
  "format_func x = py_strip (last (py_split colon x))"

text \<open>The same on a cell: a cell that is not a string has no \<open>split\<close>.\<close>

fun cell_label :: "cell \<Rightarrow> exn + pystr" where
  "cell_label (Str x) = Inr (format_func x)"
| "cell_label _ = Inl AttributeError"

text \<open>
  The sidebar reads the campaign column for the options and their labels, then the two
  date columns for the bounds of the date pickers. The values the widgets return are the
  user's choice, inputs of \<open>app\<close>; the result here is the options and labels offered.
\<close>

definition sidebar :: "frame \<Rightarrow> exn + (cell list \<times> pystr list)" where
  "sidebar df =
     bindE (getitem df campana) (\<lambda>c.
     bindE (mapE cell_label (unique c)) (\<lambda>labels.
     bindE (getitem df Inicio_del_informe) (\<lambda>_.
     bindE (getitem df Fin_del_informe) (\<lambda>_.
     Inr (unique c, labels)))))"

subsection \<open>Filter (lines 85-89)\<close>

text \<open>
  \<open>fecha_min\<close> and \<open>fecha_max\<close> are the chosen dates as timestamps, that is after
  \<open>pd.to_datetime\<close>.
\<close>

definition df_filtrado :: "frame \<Rightarrow> cell list \<Rightarrow> int \<Rightarrow> int \<Rightarrow> exn + frame" where
  "df_filtrado df campanas_seleccionadas fecha_min fecha_max =
     bindE (getitem df campana) (\<lambda>c.
     bindE (getitem df Inicio_del_informe) (\<lambda>ini.
     bindE (mapE (cell_ge fecha_min) ini) (\<lambda>m2.
     bindE (getitem df Fin_del_informe) (\<lambda>fin.
     bindE (mapE (cell_le fecha_max) fin) (\<lambda>m3.
     Inr (boolean_index df
            (series_and (series_and (series_isin c campanas_seleccionadas) m2) m3)))))))"

subsection \<open>Key figures (lines 98-105)\<close>

definition metric_sum :: "string \<Rightarrow> frame \<Rightarrow> pystr \<Rightarrow> exn + ui" where
  "metric_sum label f n =
     bindE (getitem f n) (\<lambda>s. bindE (series_sum s) (\<lambda>v. Inr (Metric label v)))"

definition metric_mean :: "string \<Rightarrow> frame \<Rightarrow> pystr \<Rightarrow> exn + ui" where
  "metric_mean label f n =
     bindE (getitem f n) (\<lambda>s. bindE (series_mean s) (\<lambda>v. Inr (Metric label v)))"

definition kpis :: "frame \<Rightarrow> (exn + ui) list" where
  "kpis f =
     [metric_sum ''Total Gastado (BOB)'' f gasto,
      metric_sum ''Resultados Totales'' f resultados,
      metric_mean ''CTR Promedio'' f CTR,
      metric_mean ''CPM Promedio'' f CPM]"

subsection \<open>Charts (lines 110-166)\<close>

text \<open>
  A plotly express chart raises ValueError when a column it is told to read is not in
  the table. What the charting library does with the data afterwards is outside the
  model: a chart element stands for the table it is given.
\<close>

definition px_columns :: "frame \<Rightarrow> pystr list \<Rightarrow> exn + unit" where
  "px_columns f ns = (if set ns \<subseteq> set (columns f) then Inr () else Inl ValueError)"

definition tab1 :: "frame \<Rightarrow> exn + ui" where
  "tab1 f =
     bindE (px_columns f [gasto, resultados, campana, impresiones, costo_por_resultado, CTR, CPM])
       (\<lambda>_. Inr (Scatter_chart f))"

text \<open>The table given to \<open>px.bar\<close> (line 132).\<close>

definition bar_input :: "(pyfloat list \<Rightarrow> nat list) \<Rightarrow> frame \<Rightarrow> exn + frame" where
  "bar_input argsort f = sort_values argsort f resultados False"

definition tab2 :: "(pyfloat list \<Rightarrow> nat list) \<Rightarrow> frame \<Rightarrow> exn + ui" where
  "tab2 argsort f =
     bindE (bar_input argsort f) (\<lambda>s.
     bindE (px_columns s [campana, resultados, gasto]) (\<lambda>_. Inr (Bar_chart s)))"

text \<open>
  The loop of lines 149-158 from its \<open>i\<close>-th iteration on: one trace per remaining
  campaign. \<open>color_sequence\<close> is \<open>px.colors.qualitative.Plotly\<close>.
\<close>

fun add_traces :: "string list \<Rightarrow> frame \<Rightarrow> nat \<Rightarrow> cell list \<Rightarrow> exn + trace list" where
  "add_traces color_sequence f i [] = Inr []"
| "add_traces color_sequence f i (c # cs) =
     bindE (getitem f campana) (\<lambda>col.
     let temp_df = boolean_index f (map (\<lambda>v. cell_eq v c) col) in
     bindE (getitem temp_df Inicio_del_informe) (\<lambda>xs.
     bindE (getitem temp_df resultados) (\<lambda>ys.
     bindE (cell_label c) (\<lambda>nm.
     bindE (py_index color_sequence i) (\<lambda>col_i.
     bindE (add_traces color_sequence f (Suc i) cs) (\<lambda>ts.
     Inr (\<lparr>trace_x = xs, trace_y = ys, trace_name = nm, trace_color = col_i\<rparr> # ts)))))))"

definition time_series :: "string list \<Rightarrow> frame \<Rightarrow> exn + trace list" where
  "time_series color_sequence f =
     bindE (getitem f campana) (\<lambda>c. add_traces color_sequence f 0 (unique c))"

definition tab3 :: "string list \<Rightarrow> frame \<Rightarrow> exn + ui" where
  "tab3 color_sequence f = bindE (time_series color_sequence f) (\<lambda>ts. Inr (Line_chart ts))"

subsection \<open>Detail table (lines 170-183)\<close>

definition detail_columns :: "pystr list" where
  "detail_columns =
     [campana, Inicio_del_informe, Fin_del_informe, gasto, resultados, impresiones, alcance,
      CTR, CPM, costo_por_resultado]"

definition detail :: "(pyfloat list \<Rightarrow> nat list) \<Rightarrow> frame \<Rightarrow> exn + frame" where
  "detail argsort f =
     bindE (getitem_list f detail_columns) (\<lambda>d. sort_values argsort d gasto False)"

subsection \<open>The script\<close>

text \<open>The statements of a list run in order until one raises.\<close>

fun run_steps :: "(exn + ui) list \<Rightarrow> ui list \<times> exn option" where
  "run_steps [] = ([], None)"
| "run_steps (Inl e # ss) = ([], Some e)"
| "run_steps (Inr u # ss) = (case run_steps ss of (us, r) \<Rightarrow> (u # us, r))"

text \<open>Lines 95-183: everything after the second guard.\<close>

definition presenter ::
  "(pyfloat list \<Rightarrow> nat list) \<Rightarrow> string list \<Rightarrow> frame \<Rightarrow> (exn + ui) list" where
  "presenter argsort color_sequence f =
     kpis f @
     [tab1 f, tab2 argsort f, tab3 color_sequence f,
      bindE (detail argsort f) (\<lambda>d. Inr (Dataframe d))]"

text \<open>
  One run of the script. \<open>read_csv\<close> is the outcome of reading the file, \<open>argsort\<close> and
  \<open>color_sequence\<close> come from the libraries, and the last three arguments are what the
  sidebar widgets return.
\<close>

definition app ::
  "exn + frame \<Rightarrow> (pyfloat list \<Rightarrow> nat list) \<Rightarrow> string list \<Rightarrow>
   cell list \<Rightarrow> int \<Rightarrow> int \<Rightarrow> outcome" where
  "app read_csv argsort color_sequence campanas_seleccionadas fecha_min fecha_max =
     (case cargar_datos read_csv of
        Inl e \<Rightarrow> Raised [] e
      | Inr (shown, df) \<Rightarrow>
          if df_empty df
          then Stopped (shown @ [St_warning ''No se encontraron datos. Verifica el archivo CSV.''])
          else (case sidebar df of
             Inl e \<Rightarrow> Raised shown e
           | Inr _ \<Rightarrow>
              (case df_filtrado df campanas_seleccionadas fecha_min fecha_max of
                 Inl e \<Rightarrow> Raised shown e
               | Inr f \<Rightarrow>
                  if df_empty f
                  then Stopped (shown @ [St_warning ''No hay datos con los filtros seleccionados.''])
                  else (case run_steps (presenter argsort color_sequence f) of
                          (us, None) \<Rightarrow> Finished (shown @ us)
                        | (us, Some e) \<Rightarrow> Raised (shown @ us) e))))"

section \<open>Vocabulary of the properties\<close>

text \<open>The kind of a cell, and columns of one kind.\<close>

fun is_number :: "cell \<Rightarrow> bool" where
  "is_number (Num _) = True"
| "is_number _ = False"

fun is_timestamp :: "cell \<Rightarrow> bool" where
  "is_timestamp (Date _) = True"
| "is_timestamp NaT = True"
| "is_timestamp _ = False"

fun is_str :: "cell \<Rightarrow> bool" where
  "is_str (Str _) = True"
| "is_str _ = False"

definition numeric_column :: "frame \<Rightarrow> pystr \<Rightarrow> bool" where
  "numeric_column df n \<longleftrightarrow> (case getitem df n of Inr s \<Rightarrow> list_all is_number s | Inl _ \<Rightarrow> False)"

definition date_column :: "frame \<Rightarrow> pystr \<Rightarrow> bool" where
  "date_column df n \<longleftrightarrow> (case getitem df n of Inr s \<Rightarrow> list_all is_timestamp s | Inl _ \<Rightarrow> False)"

definition str_column :: "frame \<Rightarrow> pystr \<Rightarrow> bool" where
  "str_column df n \<longleftrightarrow> (case getitem df n of Inr s \<Rightarrow> list_all is_str s | Inl _ \<Rightarrow> False)"

text \<open>The cell of a row under a column label.\<close>

definition row_get :: "frame \<Rightarrow> cell list \<Rightarrow> pystr \<Rightarrow> cell option" where
  "row_get df r n = map_option (\<lambda>i. r ! i) (col_index n (columns df))"

text \<open>
  The filter of the specification, on one row: the campaign is among the selected ones,
  the report starts on or after the selected start and ends on or before the selected
  end. A row lacking one of the two dates is not in the selection.
\<close>

definition in_selection :: "frame \<Rightarrow> cell list \<Rightarrow> int \<Rightarrow> int \<Rightarrow> cell list \<Rightarrow> bool" where
  "in_selection df sel a b r \<longleftrightarrow>
     (case (row_get df r campana, row_get df r Inicio_del_informe, row_get df r Fin_del_informe) of
        (Some c, Some (Date s), Some (Date e)) \<Rightarrow> c \<in> set sel \<and> a \<le> s \<and> e \<le> b
      | _ \<Rightarrow> False)"

text \<open>
  The two means the specification allows for a column with non-finite values: over the
  finite values only, or over all values with every non-finite one counted as zero.
\<close>

definition mean_excluding :: "pyfloat list \<Rightarrow> pyfloat" where
  "mean_excluding vs =
     (let fs = filter isfinite vs
      in if fs = [] then NaN else fdiv (foldl fadd (Fin 0) fs) (Fin (real (length fs))))"

definition mean_zeroing :: "pyfloat list \<Rightarrow> pyfloat" where
  "mean_zeroing vs =
     fdiv (foldl fadd (Fin 0) (map (\<lambda>v. if isfinite v then v else Fin 0) vs))
       (Fin (real (length vs)))"

text \<open>
  A column of floats in descending order with the missing values last: how
  \<open>sort_values(ascending=False)\<close> leaves its key column.
\<close>

definition descending_nan_last :: "pyfloat list \<Rightarrow> bool" where
  "descending_nan_last ks \<longleftrightarrow>
     sorted_wrt (\<lambda>a b. fle b a) (filter (\<lambda>v. \<not> isnan v) ks) \<and>
     ks = filter (\<lambda>v. \<not> isnan v) ks @ filter isnan ks"


text \<open>The distinct campaigns of a table, in order of first appearance.\<close>

definition campaigns :: "frame \<Rightarrow> cell list" where
  "campaigns f = (case getitem f campana of Inr c \<Rightarrow> unique c | Inl _ \<Rightarrow> [])"

text \<open>A sequence of dates in chronological order (missing dates aside).\<close>

fun timestamps :: "cell list \<Rightarrow> int list" where
  "timestamps [] = []"
| "timestamps (Date d # cs) = d # timestamps cs"
| "timestamps (_ # cs) = timestamps cs"

definition chronological :: "cell list \<Rightarrow> bool" where
  "chronological cs \<longleftrightarrow> sorted (timestamps cs)"


section \<open>Example tables\<close>

text \<open>
  A file with the nine expected columns and three rows: two of one campaign, the later
  report first, and one of another campaign with no impressions.
\<close>

definition raw_ejemplo :: frame where
  "raw_ejemplo =
     \<lparr>columns =
        [Nombre_de_la_campana, Inicio_del_informe, Fin_del_informe, Importe_gastado,
         Resultados, Impresiones, Alcance, Coste_por_resultados, Fin_col],
      rows =
        [[Str (str ''Meta: Ventas''), Date 8, Date 9, Num (Fin 100), Num (Fin 10), Num (Fin 1000),
          Num (Fin 800), Num (Fin 10), NaT],
         [Str (str ''Meta: Marca''), Date 3, Date 4, Num (Fin 50), Num (Fin 5), Num (Fin 0),
          Num (Fin 0), Num (Fin 10), NaT],
         [Str (str ''Meta: Ventas''), Date 1, Date 2, Num (Fin 50), Num (Fin 20), Num (Fin 500),
          Num (Fin 400), Num (Fin 5), NaT]]\<rparr>"

text \<open>The table the loader makes of it.\<close>

definition df_ejemplo :: frame where
  "df_ejemplo =
     \<lparr>columns =
        [campana, Inicio_del_informe, Fin_del_informe, gasto, resultados, impresiones, alcance,
         costo_por_resultado, Fin_col, CTR, CPM],
      rows =
        [[Str (str ''Meta: Ventas''), Date 8, Date 9, Num (Fin 100), Num (Fin 10), Num (Fin 1000),
          Num (Fin 800), Num (Fin 10), NaT, Num (Fin 1), Num (Fin 100)],
         [Str (str ''Meta: Marca''), Date 3, Date 4, Num (Fin 50), Num (Fin 5), Num (Fin 0),
          Num (Fin 0), Num (Fin 10), NaT, Num PInf, Num PInf],
         [Str (str ''Meta: Ventas''), Date 1, Date 2, Num (Fin 50), Num (Fin 20), Num (Fin 500),
          Num (Fin 400), Num (Fin 5), NaT, Num (Fin 4), Num (Fin 100)]]\<rparr>"

text \<open>
  A file of one row without the campaign column, the table the loader makes of it, and a
  file of one row without the results column.
\<close>

definition raw_sin_campana :: frame where
  "raw_sin_campana =
     \<lparr>columns =
        [Inicio_del_informe, Fin_del_informe, Importe_gastado, Resultados, Impresiones, Alcance,
         Coste_por_resultados, Fin_col],
      rows =
        [[Date 8, Date 9, Num (Fin 100), Num (Fin 10), Num (Fin 1000), Num (Fin 800),
          Num (Fin 10), NaT]]\<rparr>"

definition df_sin_campana :: frame where
  "df_sin_campana =
     \<lparr>columns =
        [Inicio_del_informe, Fin_del_informe, gasto, resultados, impresiones, alcance,
         costo_por_resultado, Fin_col, CTR, CPM],
      rows =
        [[Date 8, Date 9, Num (Fin 100), Num (Fin 10), Num (Fin 1000), Num (Fin 800),
          Num (Fin 10), NaT, Num (Fin 1), Num (Fin 100)]]\<rparr>"

definition raw_sin_resultados :: frame where
  "raw_sin_resultados =
     \<lparr>columns =
        [Nombre_de_la_campana, Inicio_del_informe, Fin_del_informe, Importe_gastado, Impresiones,
         Alcance, Coste_por_resultados, Fin_col],
      rows =
        [[Str (str ''Meta: Ventas''), Date 8, Date 9, Num (Fin 100), Num (Fin 1000), Num (Fin 800),
          Num (Fin 10), NaT]]\<rparr>"


text \<open>The ten colours of \<open>px.colors.qualitative.Plotly\<close>.\<close>

definition Plotly :: "string list" where
  "Plotly =
     [''#636EFA'', ''#EF553B'', ''#00CC96'', ''#AB63FA'', ''#FFA15A'',
      ''#19D3F3'', ''#FF6692'', ''#B6E880'', ''#FF97FF'', ''#FECB52'']"


section \<open>Auxiliary lemmas\<close>

subsection \<open>Strings\<close>

lemma py_split_not_Nil: "py_split sep s \<noteq> []"
  by (induction s) auto

lemma py_split_no_sep: "sep \<notin> set s \<Longrightarrow> py_split sep s = [s]"
  by (induction s) auto

lemma py_split_has_sep: "sep \<in> set s \<Longrightarrow> tl (py_split sep s) \<noteq> []"
  by (induction s) (auto simp: py_split_not_Nil)

lemma last_py_split_append:
  "last (py_split sep (pre @ sep # suf)) = last (py_split sep suf)"
proof (induction pre)
  case Nil
  show ?case by (simp add: py_split_not_Nil)
next
  case (Cons c pre)
  have "tl (py_split sep (pre @ sep # suf)) \<noteq> []"
    by (rule py_split_has_sep) simp
  then have "last (tl (py_split sep (pre @ sep # suf))) = last (py_split sep (pre @ sep # suf))"
    by (simp add: last_tl)
  with Cons \<open>tl (py_split sep (pre @ sep # suf)) \<noteq> []\<close> show ?case
    by (simp add: py_split_not_Nil)
qed

lemma py_strip_core:
  assumes "\<forall>c \<in> set l. py_isspace c" and "\<forall>c \<in> set r. py_isspace c"
    and "m = [] \<or> (\<not> py_isspace (hd m) \<and> \<not> py_isspace (last m))"
  shows "py_strip (l @ m @ r) = m"
proof (cases "m = []")
  case True
  with assms(1,2) have "\<forall>c \<in> set (l @ m @ r). py_isspace c"
    by auto
  then have "dropWhile py_isspace (l @ m @ r) = []"
    by (rule iffD2 [OF dropWhile_eq_Nil_conv])
  then have "py_strip (l @ m @ r) = []"
    by (simp only: py_strip_def rev.simps dropWhile.simps)
  with True show ?thesis by (simp only:)
next
  case False
  with assms(3) have h: "\<not> py_isspace (hd m)" and t: "\<not> py_isspace (last m)" by auto
  from False obtain a m' where m: "m = a # m'" by (cases m) auto
  from assms(1) have "dropWhile py_isspace (l @ m @ r) = dropWhile py_isspace (m @ r)"
    by simp
  also from h m have "\<dots> = m @ r" by simp
  finally have d1: "dropWhile py_isspace (l @ m @ r) = m @ r" .
  from False have "rev m \<noteq> []" by simp
  then obtain b n where rm: "rev m = b # n" by (cases "rev m") auto
  from False have "hd (rev m) = last m" by (simp add: hd_rev)
  with rm t have nb: "\<not> py_isspace b" by simp
  from assms(2) have "dropWhile py_isspace (rev r @ rev m) = dropWhile py_isspace (rev m)"
    by (intro dropWhile_append2) auto
  also from rm nb have "\<dots> = rev m" by simp
  finally show ?thesis using d1 by (simp add: py_strip_def)
qed

lemma py_strip_Nil_iff: "py_strip s = [] \<longleftrightarrow> (\<forall>c \<in> set s. py_isspace c)"
proof -
  have "(\<forall>c \<in> set (dropWhile py_isspace s). py_isspace c) \<longleftrightarrow> dropWhile py_isspace s = []"
  proof
    assume a: "\<forall>c \<in> set (dropWhile py_isspace s). py_isspace c"
    show "dropWhile py_isspace s = []"
    proof (rule ccontr)
      assume n: "dropWhile py_isspace s \<noteq> []"
      then have "\<not> py_isspace (hd (dropWhile py_isspace s))" by (rule hd_dropWhile)
      moreover from n have "hd (dropWhile py_isspace s) \<in> set (dropWhile py_isspace s)" by simp
      ultimately show False using a by blast
    qed
  next
    assume "dropWhile py_isspace s = []"
    then show "\<forall>c \<in> set (dropWhile py_isspace s). py_isspace c"
      by (simp del: dropWhile_eq_Nil_conv)
  qed
  moreover have "py_strip s = [] \<longleftrightarrow> (\<forall>c \<in> set (dropWhile py_isspace s). py_isspace c)"
  proof -
    have "py_strip s = [] \<longleftrightarrow> dropWhile py_isspace (rev (dropWhile py_isspace s)) = []"
      by (simp only: py_strip_def rev_is_Nil_conv)
    also have "\<dots> \<longleftrightarrow> (\<forall>c \<in> set (rev (dropWhile py_isspace s)). py_isspace c)"
      by (rule dropWhile_eq_Nil_conv)
    also have "\<dots> \<longleftrightarrow> (\<forall>c \<in> set (dropWhile py_isspace s). py_isspace c)"
      by (simp only: set_rev)
    finally show ?thesis .
  qed
  moreover have "dropWhile py_isspace s = [] \<longleftrightarrow> (\<forall>c \<in> set s. py_isspace c)"
    by (rule dropWhile_eq_Nil_conv)
  ultimately show ?thesis
    by blast
qed


subsection \<open>Exceptions and element-wise operations\<close>

lemma bindE_Inr [simp]: "bindE (Inr v) f = f v"
  by (simp add: bindE_def)

lemma bindE_Inl [simp]: "bindE (Inl e) f = Inl e"
  by (simp add: bindE_def)

lemma bindE_eq_Inr: "bindE m f = Inr w \<longleftrightarrow> (\<exists>v. m = Inr v \<and> f v = Inr w)"
  by (cases m) auto


lemma mapE_Inr: "mapE f vs = Inr ws \<Longrightarrow> length ws = length vs \<and> (\<forall>k < length vs. f (vs ! k) = Inr (ws ! k))"
proof (induction vs arbitrary: ws)
  case Nil
  then show ?case by simp
next
  case (Cons v vs)
  from Cons.prems obtain w ws' where w: "f v = Inr w" and ws': "mapE f vs = Inr ws'"
    and eq: "ws = w # ws'"
    by (auto simp: bindE_eq_Inr)
  from Cons.IH [OF ws'] w eq show ?case
    by (auto simp: nth_Cons split: nat.splits)
qed

lemma mapE_Inr_set: "mapE f vs = Inr ws \<Longrightarrow> v \<in> set vs \<Longrightarrow> \<exists>w. f v = Inr w"
  by (auto simp: in_set_conv_nth dest!: mapE_Inr)

subsection \<open>Tables\<close>

lemma col_index_Some: "col_index n cs = Some i \<Longrightarrow> i < length cs \<and> cs ! i = n"
  by (induction cs arbitrary: i) (auto split: if_splits)

lemma col_index_None: "col_index n cs = None \<longleftrightarrow> n \<notin> set cs"
  by (induction cs) auto

lemma col_index_Some_mem: "col_index n cs = Some i \<Longrightarrow> n \<in> set cs"
  by (cases "n \<in> set cs") (auto simp: col_index_None [symmetric])

lemma col_index_mem: "n \<in> set cs \<Longrightarrow> \<exists>i. col_index n cs = Some i"
  by (cases "col_index n cs") (auto simp: col_index_None)

lemma col_index_append:
  "col_index n (cs @ [m]) =
     (case col_index n cs of
        Some i \<Rightarrow> Some i
      | None \<Rightarrow> if m = n then Some (length cs) else None)"
  by (induction cs) (auto split: option.splits)

lemma col_index_inj: "col_index n cs = Some i \<Longrightarrow> col_index m cs = Some i \<Longrightarrow> n = m"
  by (auto dest!: col_index_Some)

lemma getitem_Inr:
  "getitem df n = Inr s \<longleftrightarrow> (\<exists>i. col_index n (columns df) = Some i \<and> s = map (\<lambda>r. r ! i) (rows df))"
  by (auto simp: getitem_def split: option.splits)

lemma getitem_cell_at:
  "getitem df n = Inr s \<Longrightarrow> k < length (rows df) \<Longrightarrow> cell_at df k n = Some (s ! k)"
  by (auto simp: getitem_Inr cell_at_def)

lemma getitem_length: "getitem df n = Inr s \<Longrightarrow> length s = length (rows df)"
  by (auto simp: getitem_Inr)

lemma alignedD: "aligned df \<Longrightarrow> k < length (rows df) \<Longrightarrow> length (rows df ! k) = length (columns df)"
  by (simp add: aligned_def list_all_length)

lemma columns_setitem:
  "columns (setitem df n vs) = (if n \<in> set (columns df) then columns df else columns df @ [n])"
  by (auto simp: setitem_def col_index_None split: option.splits dest: col_index_Some_mem)

lemma length_rows_setitem:
  "length vs = length (rows df) \<Longrightarrow> length (rows (setitem df n vs)) = length (rows df)"
  by (simp add: setitem_def split: option.splits)

lemma aligned_setitem:
  "aligned df \<Longrightarrow> length vs = length (rows df) \<Longrightarrow> aligned (setitem df n vs)"
  by (auto simp: aligned_def setitem_def list_all_length split: option.splits)

lemma cell_at_setitem:
  assumes "aligned df" and "length vs = length (rows df)" and "k < length (rows df)"
  shows "cell_at (setitem df n vs) k m = (if m = n then Some (vs ! k) else cell_at df k m)"
proof (cases "col_index n (columns df)")
  case None
  from assms have len: "length (rows df ! k) = length (columns df)"
    by (simp add: alignedD)
  show ?thesis
  proof (cases "col_index m (columns df)")
    case mNone: None
    with None assms len show ?thesis
      by (auto simp: cell_at_def setitem_def col_index_append nth_append)
  next
    case (Some j)
    then have "j < length (columns df)" "m \<noteq> n"
      using None by (auto dest: col_index_Some simp: col_index_None)
    with None Some assms len show ?thesis
      by (auto simp: cell_at_def setitem_def col_index_append nth_append)
  qed
next
  case (Some i)
  then have i: "i < length (columns df)"
    by (auto dest: col_index_Some)
  from assms have len: "length (rows df ! k) = length (columns df)"
    by (simp add: alignedD)
  show ?thesis
  proof (cases "col_index m (columns df)")
    case None
    with Some assms show ?thesis
      by (auto simp: cell_at_def setitem_def)
  next
    case mSome: (Some j)
    show ?thesis
    proof (cases "m = n")
      case True
      with Some mSome assms i len show ?thesis
        by (auto simp: cell_at_def setitem_def)
    next
      case False
      with Some mSome have "i \<noteq> j"
        by (auto dest: col_index_inj)
      with False Some mSome assms show ?thesis
        by (auto simp: cell_at_def setitem_def)
    qed
  qed
qed

lemma getitem_setitem_other:
  assumes "aligned df" and "length vs = length (rows df)" and "m \<noteq> n"
  shows "getitem (setitem df n vs) m = getitem df m"
proof (cases "col_index n (columns df)")
  case None
  show ?thesis
  proof (cases "col_index m (columns df)")
    case mNone: None
    with None assms show ?thesis
      by (simp add: getitem_def setitem_def col_index_append)
  next
    case (Some j)
    then have j: "j < length (columns df)"
      by (auto dest: col_index_Some)
    have "map (\<lambda>r. r ! j) (map2 (\<lambda>r v. r @ [v]) (rows df) vs) = map (\<lambda>r. r ! j) (rows df)"
    proof (rule nth_equalityI)
      show "length (map (\<lambda>r. r ! j) (map2 (\<lambda>r v. r @ [v]) (rows df) vs)) = length (map (\<lambda>r. r ! j) (rows df))"
        using assms by simp
    next
      fix k assume "k < length (map (\<lambda>r. r ! j) (map2 (\<lambda>r v. r @ [v]) (rows df) vs))"
      then have k: "k < length (rows df)" using assms by simp
      with assms have "length (rows df ! k) = length (columns df)"
        by (simp add: alignedD)
      with k j assms show "map (\<lambda>r. r ! j) (map2 (\<lambda>r v. r @ [v]) (rows df) vs) ! k = map (\<lambda>r. r ! j) (rows df) ! k"
        by (simp add: nth_append)
    qed
    with None Some show ?thesis
      by (simp add: getitem_def setitem_def col_index_append)
  qed
next
  case (Some i)
  show ?thesis
  proof (cases "col_index m (columns df)")
    case None
    with Some show ?thesis
      by (simp add: getitem_def setitem_def)
  next
    case mSome: (Some j)
    with Some assms have ij: "i \<noteq> j"
      by (auto dest: col_index_inj)
    have "map (\<lambda>r. r ! j) (map2 (\<lambda>r v. r[i := v]) (rows df) vs) = map (\<lambda>r. r ! j) (rows df)"
    proof (rule nth_equalityI)
      show "length (map (\<lambda>r. r ! j) (map2 (\<lambda>r v. r[i := v]) (rows df) vs)) = length (map (\<lambda>r. r ! j) (rows df))"
        using assms by simp
    next
      fix k assume "k < length (map (\<lambda>r. r ! j) (map2 (\<lambda>r v. r[i := v]) (rows df) vs))"
      then have k: "k < length (rows df)" using assms by simp
      with ij assms show "map (\<lambda>r. r ! j) (map2 (\<lambda>r v. r[i := v]) (rows df) vs) ! k = map (\<lambda>r. r ! j) (rows df) ! k"
        by simp
    qed
    with Some mSome show ?thesis
      by (simp add: getitem_def setitem_def)
  qed
qed


subsection \<open>Floating-point facts\<close>

lemma ratio_finite: "0 < x \<Longrightarrow> fmul (fdiv (Fin y) (Fin x)) (Fin k) = Fin (y / x * k)"
  by simp

lemma ratio_zero_divisor: "\<not> isfinite (fmul (fdiv r (Fin 0)) (Fin k))"
  by (cases r) auto

subsection \<open>Loading\<close>

lemmas label_defs =
  Nombre_de_la_campana_def Importe_gastado_def Impresiones_def Alcance_def Resultados_def
  Coste_por_resultados_def Inicio_del_informe_def Fin_del_informe_def Fin_col_def
  campana_def gasto_def impresiones_def alcance_def resultados_def costo_por_resultado_def
  CTR_def CPM_def str_def

lemma list_all_is_number: "list_all is_number s \<Longrightarrow> \<exists>vs. s = map Num vs"
proof (induction s)
  case Nil
  then show ?case by simp
next
  case (Cons c s)
  then obtain vs where "s = map Num vs" by auto
  moreover from Cons.prems obtain v where "c = Num v" by (cases c) auto
  ultimately have "c # s = map Num (v # vs)" by simp
  then show ?case by (rule exI [of _ "v # vs"])
qed

lemma numeric_columnD: "numeric_column df n \<Longrightarrow> \<exists>vs. getitem df n = Inr (map Num vs)"
  by (auto simp: numeric_column_def split: sum.splits dest: list_all_is_number)

lemma series_truediv_Num:
  "length as = length bs \<Longrightarrow> series_truediv (map Num as) (map Num bs) = Inr (map2 fdiv as bs)"
  by (induction as bs rule: list_induct2) (auto simp: series_truediv_def)

lemma aligned_rename [simp]: "aligned (rename m df) = aligned df"
  by (simp add: aligned_def rename_def)

lemma rows_rename [simp]: "rows (rename m df) = rows df"
  by (simp add: rename_def)

lemma cargar_body_numeric:
  assumes al: "aligned data"
    and r: "getitem (rename rename_map data) resultados = Inr (map Num rs)"
    and i: "getitem (rename rename_map data) impresiones = Inr (map Num is)"
    and g: "getitem (rename rename_map data) gasto = Inr (map Num gs)"
  shows "cargar_body data =
           Inr (setitem (setitem (rename rename_map data) CTR (series_mul (map2 fdiv rs is) 100))
                  CPM (series_mul (map2 fdiv gs is) 1000))"
proof -
  let ?df = "rename rename_map data"
  let ?ctr = "series_mul (map2 fdiv rs is) 100"
  from r i g have len: "length rs = length (rows data)" "length is = length (rows data)"
      "length gs = length (rows data)"
    by (auto dest!: getitem_length)
  then have lc: "length ?ctr = length (rows ?df)"
    by (simp add: series_mul_def)
  from al have al': "aligned ?df" by simp
  have ne: "gasto \<noteq> CTR" "impresiones \<noteq> CTR"
    by (simp_all add: label_defs)
  from al' lc ne g i have g1: "getitem (setitem ?df CTR ?ctr) gasto = Inr (map Num gs)"
    and i1: "getitem (setitem ?df CTR ?ctr) impresiones = Inr (map Num is)"
    by (simp_all add: getitem_setitem_other)
  from len r i g1 i1 show ?thesis
    by (simp add: cargar_body_def Let_def series_truediv_Num)
qed

text \<open>What the loader returns for numeric source columns, cell by cell.\<close>

lemma cargar_datos_numeric:
  assumes al: "aligned data"
    and r: "getitem (rename rename_map data) resultados = Inr (map Num rs)"
    and i: "getitem (rename rename_map data) impresiones = Inr (map Num is)"
    and g: "getitem (rename rename_map data) gasto = Inr (map Num gs)"
  shows "\<exists>df. cargar_datos (Inr data) = Inr ([], df) \<and> length (rows df) = length (rows data) \<and>
           {resultados, impresiones, gasto, CTR, CPM} \<subseteq> set (columns df) \<and>
           (\<forall>k < length (rows data).
              cell_at df k resultados = Some (Num (rs ! k)) \<and>
              cell_at df k impresiones = Some (Num (is ! k)) \<and>
              cell_at df k gasto = Some (Num (gs ! k)) \<and>
              cell_at df k CTR = Some (Num (fmul (fdiv (rs ! k) (is ! k)) (Fin 100))) \<and>
              cell_at df k CPM = Some (Num (fmul (fdiv (gs ! k) (is ! k)) (Fin 1000))))"
proof -
  let ?df = "rename rename_map data"
  let ?ctr = "series_mul (map2 fdiv rs is) 100"
  let ?cpm = "series_mul (map2 fdiv gs is) 1000"
  let ?df1 = "setitem ?df CTR ?ctr"
  let ?df2 = "setitem ?df1 CPM ?cpm"
  from r i g have len: "length rs = length (rows data)" "length is = length (rows data)"
      "length gs = length (rows data)"
    by (auto dest!: getitem_length)
  then have lc: "length ?ctr = length (rows ?df)" and lp0: "length ?cpm = length (rows ?df)"
    by (simp_all add: series_mul_def)
  from al have al0: "aligned ?df" by simp
  from al0 lc have al1: "aligned ?df1" and l1: "length (rows ?df1) = length (rows data)"
    by (simp_all add: aligned_setitem length_rows_setitem)
  from lp0 l1 have lp: "length ?cpm = length (rows ?df1)" by simp
  from lp l1 have l2: "length (rows ?df2) = length (rows data)"
    by (simp add: length_rows_setitem)
  have body: "cargar_datos (Inr data) = Inr ([], ?df2)"
    using cargar_body_numeric [OF al r i g] by (simp add: cargar_datos_def)
  have ne: "resultados \<noteq> CTR" "resultados \<noteq> CPM" "impresiones \<noteq> CTR" "impresiones \<noteq> CPM"
    "gasto \<noteq> CTR" "gasto \<noteq> CPM" "CTR \<noteq> CPM"
    by (simp_all add: label_defs)
  from r i g have "{resultados, impresiones, gasto} \<subseteq> set (columns ?df)"
    by (auto simp: getitem_Inr dest: col_index_Some_mem)
  then have cols: "{resultados, impresiones, gasto, CTR, CPM} \<subseteq> set (columns ?df2)"
    by (auto simp: columns_setitem)
  have cells: "cell_at ?df2 k resultados = Some (Num (rs ! k)) \<and>
      cell_at ?df2 k impresiones = Some (Num (is ! k)) \<and>
      cell_at ?df2 k gasto = Some (Num (gs ! k)) \<and>
      cell_at ?df2 k CTR = Some (Num (fmul (fdiv (rs ! k) (is ! k)) (Fin 100))) \<and>
      cell_at ?df2 k CPM = Some (Num (fmul (fdiv (gs ! k) (is ! k)) (Fin 1000)))"
    if k: "k < length (rows data)" for k
  proof -
    from k have k0: "k < length (rows ?df)" and k1: "k < length (rows ?df1)"
      using l1 by simp_all
    have at: "cell_at ?df2 k m = (if m = CPM then Some (?cpm ! k)
                else if m = CTR then Some (?ctr ! k) else cell_at ?df k m)" for m
      using cell_at_setitem [OF al1 lp k1, of CPM m] cell_at_setitem [OF al0 lc k0, of CTR m]
      by simp
    from k len have ctr: "?ctr ! k = Num (fmul (fdiv (rs ! k) (is ! k)) (Fin 100))"
      and cpm: "?cpm ! k = Num (fmul (fdiv (gs ! k) (is ! k)) (Fin 1000))"
      by (simp_all add: series_mul_def)
    from k len r i g have src: "cell_at ?df k resultados = Some (Num (rs ! k))"
      "cell_at ?df k impresiones = Some (Num (is ! k))"
      "cell_at ?df k gasto = Some (Num (gs ! k))"
      by (simp_all add: getitem_cell_at)
    show ?thesis
      using ne src ctr cpm by (simp add: at)
  qed
  from body l2 cols cells show ?thesis by blast
qed


subsection \<open>Filtering\<close>

lemma select_map: "map snd (filter fst (zip (map P vs) vs)) = filter P vs"
  by (induction vs) auto

lemma boolean_index_map: "boolean_index df (map P (rows df)) = df\<lparr>rows := filter P (rows df)\<rparr>"
  by (simp add: boolean_index_def select_map)

lemma series_and_map: "series_and (map f vs) (map g vs) = map (\<lambda>v. f v \<and> g v) vs"
  by (induction vs) (auto simp: series_and_def)

lemma mapE_cell_ge:
  "mapE (cell_ge a) s = Inr m \<longleftrightarrow>
     list_all is_timestamp s \<and> m = map (\<lambda>c. case c of Date d \<Rightarrow> a \<le> d | _ \<Rightarrow> False) s"
proof (induction s arbitrary: m)
  case Nil
  show ?case by auto
next
  case (Cons c s)
  show ?case
    by (cases c) (auto simp: bindE_eq_Inr Cons.IH)
qed

lemma mapE_cell_le:
  "mapE (cell_le b) s = Inr m \<longleftrightarrow>
     list_all is_timestamp s \<and> m = map (\<lambda>c. case c of Date d \<Rightarrow> d \<le> b | _ \<Rightarrow> False) s"
proof (induction s arbitrary: m)
  case Nil
  show ?case by auto
next
  case (Cons c s)
  show ?case
    by (cases c) (auto simp: bindE_eq_Inr Cons.IH)
qed

lemma date_column_iff:
  "date_column df n \<longleftrightarrow>
     (\<exists>i. col_index n (columns df) = Some i \<and> list_all is_timestamp (map (\<lambda>r. r ! i) (rows df)))"
  by (auto simp: date_column_def getitem_def split: option.splits)

lemma in_selection_index:
  assumes "col_index campana (columns df) = Some ic"
    and "col_index Inicio_del_informe (columns df) = Some ii"
    and "col_index Fin_del_informe (columns df) = Some ie"
  shows "in_selection df sel a b r \<longleftrightarrow>
           (r ! ic \<in> set sel \<and> (case r ! ii of Date d \<Rightarrow> a \<le> d | _ \<Rightarrow> False)) \<and>
           (case r ! ie of Date d \<Rightarrow> d \<le> b | _ \<Rightarrow> False)"
  using assms by (auto simp: in_selection_def row_get_def split: cell.splits)

lemma df_filtrado_iff:
  "df_filtrado df sel a b = Inr f \<longleftrightarrow>
     campana \<in> set (columns df) \<and> date_column df Inicio_del_informe \<and>
     date_column df Fin_del_informe \<and>
     f = df\<lparr>rows := filter (in_selection df sel a b) (rows df)\<rparr>"
proof (cases "col_index campana (columns df)")
  case None
  then have "campana \<notin> set (columns df)"
    by (simp add: col_index_None)
  with None show ?thesis
    by (simp add: df_filtrado_def getitem_def)
next
  case ic: (Some ic)
  then have mem: "campana \<in> set (columns df)"
    by (rule col_index_Some_mem)
  show ?thesis
  proof (cases "col_index Inicio_del_informe (columns df)")
    case None
    with ic show ?thesis
      by (simp add: df_filtrado_def getitem_def date_column_iff)
  next
    case ii: (Some ii)
    show ?thesis
    proof (cases "col_index Fin_del_informe (columns df)")
      case None
      with ic ii show ?thesis
        by (auto simp: df_filtrado_def getitem_def date_column_iff bindE_eq_Inr)
    next
      case ie: (Some ie)
      let ?P = "\<lambda>r. (r ! ic \<in> set sel \<and> (case r ! ii of Date d \<Rightarrow> a \<le> d | _ \<Rightarrow> False)) \<and>
                      (case r ! ie of Date d \<Rightarrow> d \<le> b | _ \<Rightarrow> False)"
      have P: "in_selection df sel a b = ?P"
        using in_selection_index [OF ic ii ie] by (intro ext) simp
      have "df_filtrado df sel a b = Inr f \<longleftrightarrow>
          list_all is_timestamp (map (\<lambda>r. r ! ii) (rows df)) \<and>
          list_all is_timestamp (map (\<lambda>r. r ! ie) (rows df)) \<and>
          f = boolean_index df (map ?P (rows df))"
        using ic ii ie
        by (auto simp: df_filtrado_def getitem_def bindE_eq_Inr mapE_cell_ge mapE_cell_le
            series_isin_def series_and_map comp_def)
      with ic ii ie mem show ?thesis
        by (simp add: date_column_iff boolean_index_map P)
    qed
  qed
qed

lemma in_selection_columns:
  "columns f = columns df \<Longrightarrow> in_selection f sel a b = in_selection df sel a b"
  by (intro ext) (simp add: in_selection_def row_get_def)

lemma date_column_filter:
  "date_column df n \<Longrightarrow> date_column (df\<lparr>rows := filter P (rows df)\<rparr>) n"
  by (auto simp: date_column_iff list_all_iff)


subsection \<open>The example tables\<close>

lemma cargar_datos_raw_ejemplo: "cargar_datos (Inr raw_ejemplo) = Inr ([], df_ejemplo)"
  by (simp add: cargar_datos_def cargar_body_def raw_ejemplo_def df_ejemplo_def rename_def
      rename_map_def getitem_def setitem_def series_truediv_def series_mul_def label_defs)

lemma df_ejemplo_columns:
  "campana \<in> set (columns df_ejemplo)"
  "date_column df_ejemplo Inicio_del_informe"
  "date_column df_ejemplo Fin_del_informe"
  by (simp_all add: df_ejemplo_def date_column_def getitem_def label_defs)



subsection \<open>Rows of a loaded table\<close>

text \<open>
  The positions of the five numeric columns in a loaded table, and what every row holds
  there.
\<close>

lemma cargar_datos_rows:
  assumes al: "aligned data"
    and r: "numeric_column (rename rename_map data) resultados"
    and i: "numeric_column (rename rename_map data) impresiones"
    and g: "numeric_column (rename rename_map data) gasto"
    and load: "cargar_datos (Inr data) = Inr (shown, df)"
  shows "shown = [] \<and>
         (\<exists>ir ii ig ic ip.
            col_index resultados (columns df) = Some ir \<and>
            col_index impresiones (columns df) = Some ii \<and>
            col_index gasto (columns df) = Some ig \<and>
            col_index CTR (columns df) = Some ic \<and>
            col_index CPM (columns df) = Some ip \<and>
            (\<forall>r \<in> set (rows df). \<exists>res imp gas.
               r ! ir = Num res \<and> r ! ii = Num imp \<and> r ! ig = Num gas \<and>
               r ! ic = Num (fmul (fdiv res imp) (Fin 100)) \<and>
               r ! ip = Num (fmul (fdiv gas imp) (Fin 1000))))"
proof -
  from r i g obtain rs "is" gs where
    "getitem (rename rename_map data) resultados = Inr (map Num rs)"
    "getitem (rename rename_map data) impresiones = Inr (map Num is)"
    "getitem (rename rename_map data) gasto = Inr (map Num gs)"
    by (blast dest: numeric_columnD)
  from cargar_datos_numeric [OF al this] load have sh: "shown = []"
    and len: "length (rows df) = length (rows data)"
    and cols: "{resultados, impresiones, gasto, CTR, CPM} \<subseteq> set (columns df)"
    and cells: "\<forall>k < length (rows data).
      cell_at df k resultados = Some (Num (rs ! k)) \<and>
      cell_at df k impresiones = Some (Num (is ! k)) \<and>
      cell_at df k gasto = Some (Num (gs ! k)) \<and>
      cell_at df k CTR = Some (Num (fmul (fdiv (rs ! k) (is ! k)) (Fin 100))) \<and>
      cell_at df k CPM = Some (Num (fmul (fdiv (gs ! k) (is ! k)) (Fin 1000)))"
    by auto
  from cols have "resultados \<in> set (columns df)" "impresiones \<in> set (columns df)"
    "gasto \<in> set (columns df)" "CTR \<in> set (columns df)" "CPM \<in> set (columns df)"
    by simp_all
  then obtain ir ii ig ic ip where idx:
    "col_index resultados (columns df) = Some ir"
    "col_index impresiones (columns df) = Some ii"
    "col_index gasto (columns df) = Some ig"
    "col_index CTR (columns df) = Some ic"
    "col_index CPM (columns df) = Some ip"
    by (meson col_index_mem)
  have "\<exists>res imp gas.
      r ! ir = Num res \<and> r ! ii = Num imp \<and> r ! ig = Num gas \<and>
      r ! ic = Num (fmul (fdiv res imp) (Fin 100)) \<and>
      r ! ip = Num (fmul (fdiv gas imp) (Fin 1000))"
    if "r \<in> set (rows df)" for r
  proof -
    from that obtain k where k: "k < length (rows df)" and rk: "r = rows df ! k"
      by (auto simp: in_set_conv_nth)
    from k len cells idx rk show ?thesis
      by (auto simp: cell_at_def)
  qed
  with sh idx show ?thesis by blast
qed

subsection \<open>Sums and means\<close>

lemma mapE_as_float_Num: "mapE as_float (map Num vs) = Inr vs"
  by (induction vs) auto

lemma series_mean_Num: "series_mean (map Num vs) = Inr (nanmean vs)"
  by (simp add: series_mean_def mapE_as_float_Num)

lemma series_sum_Num: "series_sum (map Num vs) = Inr (nansum vs)"
  by (simp add: series_sum_def mapE_as_float_Num)

lemma fadd_nonfinite: "\<not> isfinite a \<Longrightarrow> \<not> isfinite (fadd a v)"
  by (cases a; cases v) auto

lemma fadd_nonfinite2: "\<not> isfinite v \<Longrightarrow> \<not> isfinite (fadd a v)"
  by (cases a; cases v) auto

lemma foldl_fadd_nonfinite: "\<not> isfinite a \<Longrightarrow> \<not> isfinite (foldl fadd a vs)"
  by (induction vs arbitrary: a) (auto simp: fadd_nonfinite)

lemma foldl_fadd_has_nonfinite: "\<exists>v \<in> set vs. \<not> isfinite v \<Longrightarrow> \<not> isfinite (foldl fadd a vs)"
proof (induction vs arbitrary: a)
  case Nil
  then show ?case by simp
next
  case (Cons v vs)
  show ?case
  proof (cases "isfinite v")
    case True
    with Cons.prems have "\<exists>w \<in> set vs. \<not> isfinite w" by auto
    then show ?thesis by (simp add: Cons.IH)
  next
    case False
    then have "\<not> isfinite (fadd a v)" by (rule fadd_nonfinite2)
    then show ?thesis by (simp add: foldl_fadd_nonfinite)
  qed
qed

lemma fdiv_nonfinite: "\<not> isfinite a \<Longrightarrow> 0 < n \<Longrightarrow> \<not> isfinite (fdiv a (Fin n))"
  by (cases a) auto

lemma nanmean_infinite:
  assumes "\<exists>v \<in> set vs. v = PInf \<or> v = NInf"
  shows "\<not> isfinite (nanmean vs)"
proof -
  let ?nn = "filter (\<lambda>v. \<not> isnan v) vs"
  from assms obtain v where v: "v \<in> set vs" "v = PInf \<or> v = NInf" by blast
  then have in_nn: "v \<in> set ?nn" and nf: "\<not> isfinite v" by auto
  from v have "\<exists>w \<in> set vs. \<not> isnan w" by (intro bexI [of _ v]) auto
  then have ne: "?nn \<noteq> []" by (simp add: filter_empty_conv)
  then have pos: "0 < real (length ?nn)" by simp
  from in_nn nf have "\<not> isfinite (foldl fadd (Fin 0) ?nn)"
    by (intro foldl_fadd_has_nonfinite) blast
  from fdiv_nonfinite [OF this pos] ne show ?thesis
    by (simp add: nanmean_def Let_def)
qed

lemma nanmean_skips_nan: "nanmean vs = nanmean (filter (\<lambda>v. \<not> isnan v) vs)"
  by (simp add: nanmean_def)


subsection \<open>Sorting\<close>

lemma fle_trans: "fle a b \<Longrightarrow> fle b c \<Longrightarrow> fle a c"
  by (cases a; cases b; cases c) auto

lemma fle_total: "\<not> isnan a \<Longrightarrow> \<not> isnan b \<Longrightarrow> fle a b \<or> fle b a"
  by (cases a; cases b) auto

lemma mset_insert_index: "mset (insert_index p vs i js) = add_mset i (mset js)"
  by (induction js) auto

lemma set_insert_index: "set (insert_index p vs i js) = insert i (set js)"
  by (simp add: mset_insert_index flip: set_mset_mset)

text \<open>An order test fit for insertion: it implies \<open><=\<close>, and when it fails \<open>>=\<close> holds.\<close>

lemma sorted_insert_index:
  assumes p: "\<And>a b. \<not> isnan a \<Longrightarrow> \<not> isnan b \<Longrightarrow> (p a b \<longrightarrow> fle a b) \<and> (\<not> p a b \<longrightarrow> fle b a)"
    and nn: "\<not> isnan (vs ! i)" "\<forall>j \<in> set js. \<not> isnan (vs ! j)"
    and srt: "sorted_wrt fle (map (\<lambda>j. vs ! j) js)"
  shows "sorted_wrt fle (map (\<lambda>j. vs ! j) (insert_index p vs i js))"
  using nn(2) srt
proof (induction js)
  case Nil
  show ?case by simp
next
  case (Cons j js)
  from Cons.prems have nj: "\<not> isnan (vs ! j)" and tl: "\<forall>k \<in> set js. fle (vs ! j) (vs ! k)"
    and srt': "sorted_wrt fle (map (\<lambda>j. vs ! j) js)" and nn': "\<forall>j \<in> set js. \<not> isnan (vs ! j)"
    by auto
  show ?case
  proof (cases "p (vs ! i) (vs ! j)")
    case True
    with p [OF nn(1) nj] have ij: "fle (vs ! i) (vs ! j)" by simp
    with tl have "\<forall>k \<in> set js. fle (vs ! i) (vs ! k)"
      by (blast intro: fle_trans)
    with True ij Cons.prems show ?thesis by simp
  next
    case False
    with p [OF nn(1) nj] have ji: "fle (vs ! j) (vs ! i)" by simp
    with False tl Cons.IH [OF nn' srt'] show ?thesis
      by (simp add: set_insert_index)
  qed
qed

lemma insertion_upto:
  assumes p: "\<And>a b. \<not> isnan a \<Longrightarrow> \<not> isnan b \<Longrightarrow> (p a b \<longrightarrow> fle a b) \<and> (\<not> p a b \<longrightarrow> fle b a)"
    and nn: "\<forall>v \<in> set vs. \<not> isnan v"
    and m: "m \<le> length vs"
  shows "mset (foldl (\<lambda>js i. insert_index p vs i js) [] [0..<m]) = mset [0..<m] \<and>
         sorted_wrt fle (map (\<lambda>j. vs ! j) (foldl (\<lambda>js i. insert_index p vs i js) [] [0..<m]))"
  using m
proof (induction m)
  case 0
  show ?case by simp
next
  case (Suc m)
  let ?js = "foldl (\<lambda>js i. insert_index p vs i js) [] [0..<m]"
  from Suc have ms: "mset ?js = mset [0..<m]" and srt: "sorted_wrt fle (map (\<lambda>j. vs ! j) ?js)"
    by simp_all
  from ms have "set ?js = {0..<m}"
    by (metis set_mset_mset set_upt)
  with nn Suc.prems have nj: "\<forall>j \<in> set ?js. \<not> isnan (vs ! j)" and ni: "\<not> isnan (vs ! m)"
    by auto
  from sorted_insert_index [of p vs m ?js, OF p ni nj srt] ms show ?case
    by (simp add: mset_insert_index)
qed

lemma argsort_contract_stable: "argsort_contract argsort_stable"
  unfolding argsort_contract_def argsort_stable_def
proof (intro allI impI)
  fix vs :: "pyfloat list"
  assume nn: "\<forall>v \<in> set vs. \<not> isnan v"
  have "(flt a b \<longrightarrow> fle a b) \<and> (\<not> flt a b \<longrightarrow> fle b a)" if "\<not> isnan a" "\<not> isnan b" for a b
    using fle_total [OF that] by auto
  from insertion_upto [of flt vs "length vs", OF this nn]
  show "mset (foldl (\<lambda>js i. insert_index flt vs i js) [] [0..<length vs]) = mset [0..<length vs] \<and>
        sorted_wrt fle (map (\<lambda>i. vs ! i) (foldl (\<lambda>js i. insert_index flt vs i js) [] [0..<length vs]))"
    by simp
qed


lemma mset_filter_split: "mset (filter P xs) + mset (filter (\<lambda>x. \<not> P x) xs) = mset xs"
  by (induction xs) auto

lemma mset_map_nth_perm:
  assumes "mset a = mset [0..<length xs]"
  shows "mset (map (\<lambda>j. xs ! j) a) = mset xs"
proof -
  have "mset (map (\<lambda>j. xs ! j) a) = image_mset (\<lambda>j. xs ! j) (mset a)"
    by simp
  also have "\<dots> = image_mset (\<lambda>j. xs ! j) (mset [0..<length xs])"
    by (simp only: assms)
  also have "\<dots> = mset (map (\<lambda>j. xs ! j) [0..<length xs])"
    by simp
  also have "\<dots> = mset xs"
    by (simp only: map_nth)
  finally show ?thesis .
qed

lemma perm_upt_set: "mset a = mset [0..<n] \<Longrightarrow> set a = {0..<n}"
  by (metis set_mset_mset set_upt)

lemma map_map_nth: "set a \<subseteq> {0..<length xs} \<Longrightarrow> map g (map (\<lambda>j. xs ! j) a) = map (\<lambda>j. map g xs ! j) a"
  by auto

text \<open>
  A descending \<open>nargsort\<close> with a sort that meets the contract: a permutation of the
  positions that puts the values in descending order, the missing ones last.
\<close>

lemma nargsort_descending:
  assumes A: "argsort_contract A"
  shows "mset (nargsort A False items) = mset [0..<length items] \<and>
         descending_nan_last (map (\<lambda>i. items ! i) (nargsort A False items))"
proof -
  define nn0 where "nn0 = filter (\<lambda>i. \<not> isnan (items ! i)) [0..<length items]"
  define nan where "nan = filter (\<lambda>i. isnan (items ! i)) [0..<length items]"
  define nn where "nn = rev nn0"
  define vals where "vals = map (\<lambda>i. items ! i) nn"
  define a where "a = A vals"
  define ks where "ks = map (\<lambda>j. vals ! j) a"
  have res: "nargsort A False items = rev (map (\<lambda>j. nn ! j) a) @ nan"
    by (simp add: nargsort_def Let_def nn0_def nan_def nn_def vals_def a_def)
  have nn_vals: "\<forall>v \<in> set vals. \<not> isnan v"
    by (auto simp: vals_def nn_def nn0_def)
  have lv: "length vals = length nn"
    by (simp add: vals_def)
  from A nn_vals have ma: "mset a = mset [0..<length vals]"
    and sa: "sorted_wrt fle (map (\<lambda>j. vals ! j) a)"
    unfolding argsort_contract_def a_def by blast+
  from ma lv have seta: "set a = {0..<length nn}"
    by (simp add: perm_upt_set)
  from ma lv have "mset a = mset [0..<length nn]"
    by (simp only:)
  then have m1: "mset (map (\<lambda>j. nn ! j) a) = mset nn"
    by (rule mset_map_nth_perm)
  have "mset nn0 + mset nan = mset [0..<length items]"
    unfolding nn0_def nan_def
    using mset_filter_split [of "\<lambda>i. \<not> isnan (items ! i)" "[0..<length items]"]
    by simp
  with m1 res have perm: "mset (nargsort A False items) = mset [0..<length items]"
    by (simp add: nn_def)
  have keys0: "map (\<lambda>i. items ! i) (map (\<lambda>j. nn ! j) a) = ks"
    unfolding ks_def vals_def using seta by (intro map_map_nth) simp
  have ks_nn: "\<forall>v \<in> set ks. \<not> isnan v"
  proof
    fix v assume "v \<in> set ks"
    then obtain j where "j \<in> set a" "v = vals ! j" by (auto simp: ks_def)
    with seta lv have "v \<in> set vals" by simp
    with nn_vals show "\<not> isnan v" by blast
  qed
  have nans: "\<forall>v \<in> set (map (\<lambda>i. items ! i) nan). isnan v"
    by (auto simp: nan_def)
  have "map (\<lambda>i. items ! i) (rev (map (\<lambda>j. nn ! j) a)) =
      rev (map (\<lambda>i. items ! i) (map (\<lambda>j. nn ! j) a))"
    by (simp only: rev_map)
  then have keys: "map (\<lambda>i. items ! i) (nargsort A False items) = rev ks @ map (\<lambda>i. items ! i) nan"
    by (simp only: res keys0 map_append)
  have f1: "filter (\<lambda>v. \<not> isnan v) (rev ks @ map (\<lambda>i. items ! i) nan) = rev ks"
    using ks_nn nans by (simp add: filter_id_conv filter_empty_conv)
  have f2: "filter isnan (rev ks @ map (\<lambda>i. items ! i) nan) = map (\<lambda>i. items ! i) nan"
    using ks_nn nans by (simp add: filter_id_conv filter_empty_conv)
  have "sorted_wrt (\<lambda>a b. fle b a) (rev ks)"
    using sa by (simp only: sorted_wrt_rev ks_def)
  with f1 f2 have "descending_nan_last (rev ks @ map (\<lambda>i. items ! i) nan)"
    unfolding descending_nan_last_def by (simp only: simp_thms)
  with keys perm show ?thesis by simp
qed

lemma sort_values_descending:
  assumes A: "argsort_contract A" and k: "getitem df by = Inr (map Num ks)"
  shows "\<exists>s ks'. sort_values A df by False = Inr s \<and> columns s = columns df \<and>
           mset (rows s) = mset (rows df) \<and> getitem s by = Inr (map Num ks') \<and>
           descending_nan_last ks'"
proof -
  define idx where "idx = nargsort A False ks"
  define s where "s = df\<lparr>rows := map (\<lambda>i. rows df ! i) idx\<rparr>"
  from k have len: "length ks = length (rows df)"
    by (auto dest: getitem_length)
  from nargsort_descending [OF A, of ks] len
  have perm: "mset idx = mset [0..<length (rows df)]"
    and desc: "descending_nan_last (map (\<lambda>i. ks ! i) idx)"
    by (simp_all add: idx_def)
  from perm have sub: "set idx \<subseteq> {0..<length (rows df)}"
    by (simp add: perm_upt_set)
  have 1: "sort_values A df by False = Inr s"
    by (simp add: sort_values_def k mapE_as_float_Num s_def idx_def)
  have 2: "columns s = columns df"
    by (simp add: s_def)
  from perm have 3: "mset (rows s) = mset (rows df)"
    by (simp add: s_def mset_map_nth_perm del: mset_map)
  from k obtain i where i: "col_index by (columns df) = Some i"
    and col: "map Num ks = map (\<lambda>r. r ! i) (rows df)"
    by (auto simp: getitem_Inr)
  from sub have "map (\<lambda>r. r ! i) (map (\<lambda>j. rows df ! j) idx) = map (\<lambda>j. map (\<lambda>r. r ! i) (rows df) ! j) idx"
    by (rule map_map_nth)
  also have "\<dots> = map (\<lambda>j. map Num ks ! j) idx"
    by (simp only: col)
  also from sub len have "\<dots> = map Num (map (\<lambda>j. ks ! j) idx)"
    by (intro map_map_nth [symmetric]) simp
  finally have 4: "getitem s by = Inr (map Num (map (\<lambda>j. ks ! j) idx))"
    using i by (simp add: getitem_def s_def)
  from 1 2 3 4 desc show ?thesis by blast
qed



subsection \<open>Traces\<close>

lemma uniques_props: "set (uniques seen vs) = set vs - set seen \<and> distinct (uniques seen vs)"
  by (induction vs arbitrary: seen) auto

lemma unique_props: "set (unique vs) = set vs" "distinct (unique vs)"
  by (simp_all add: unique_def uniques_props)

lemma cell_eq_Str: "cell_eq v (Str s) \<longleftrightarrow> v = Str s"
  by (cases v) auto

lemma add_traces_ok:
  assumes ic: "col_index campana (columns f) = Some ic"
    and ii: "col_index Inicio_del_informe (columns f) = Some ii"
    and ir: "col_index resultados (columns f) = Some ir"
    and strs: "list_all is_str cl"
    and cols: "i + length cl \<le> length color_sequence"
  shows "\<exists>ts. add_traces color_sequence f i cl = Inr ts \<and> length ts = length cl \<and>
           (\<forall>k < length cl. \<exists>s. cl ! k = Str s \<and>
              trace_name (ts ! k) = format_func s \<and>
              trace_color (ts ! k) = color_sequence ! (i + k) \<and>
              trace_x (ts ! k) = map (\<lambda>r. r ! ii) (filter (\<lambda>r. r ! ic = Str s) (rows f)) \<and>
              trace_y (ts ! k) = map (\<lambda>r. r ! ir) (filter (\<lambda>r. r ! ic = Str s) (rows f)))"
  using strs cols
proof (induction cl arbitrary: i)
  case Nil
  show ?case by simp
next
  case (Cons c cl)
  from Cons.prems obtain s where c: "c = Str s"
    by (cases c) auto
  from Cons.prems have "list_all is_str cl" "Suc i + length cl \<le> length color_sequence"
    by simp_all
  from Cons.IH [OF this] obtain ts where
    ts: "add_traces color_sequence f (Suc i) cl = Inr ts" "length ts = length cl" and
    tsk: "\<forall>k < length cl. \<exists>s. cl ! k = Str s \<and>
              trace_name (ts ! k) = format_func s \<and>
              trace_color (ts ! k) = color_sequence ! (Suc i + k) \<and>
              trace_x (ts ! k) = map (\<lambda>r. r ! ii) (filter (\<lambda>r. r ! ic = Str s) (rows f)) \<and>
              trace_y (ts ! k) = map (\<lambda>r. r ! ir) (filter (\<lambda>r. r ! ic = Str s) (rows f))"
    by blast
  let ?t = "\<lparr>trace_x = map (\<lambda>r. r ! ii) (filter (\<lambda>r. r ! ic = Str s) (rows f)),
             trace_y = map (\<lambda>r. r ! ir) (filter (\<lambda>r. r ! ic = Str s) (rows f)),
             trace_name = format_func s, trace_color = color_sequence ! i\<rparr>"
  have bi: "boolean_index f (map (\<lambda>v. cell_eq v (Str s)) (map (\<lambda>r. r ! ic) (rows f))) =
      f\<lparr>rows := filter (\<lambda>r. r ! ic = Str s) (rows f)\<rparr>"
    using boolean_index_map [of f "\<lambda>r. r ! ic = Str s"] by (simp add: cell_eq_Str comp_def)
  from Cons.prems have "i < length color_sequence" by simp
  with ic ii ir ts(1) c bi have eq: "add_traces color_sequence f i (c # cl) = Inr (?t # ts)"
    by (simp add: getitem_def py_index_def Let_def)
  have "\<exists>s. (c # cl) ! k = Str s \<and>
              trace_name ((?t # ts) ! k) = format_func s \<and>
              trace_color ((?t # ts) ! k) = color_sequence ! (i + k) \<and>
              trace_x ((?t # ts) ! k) = map (\<lambda>r. r ! ii) (filter (\<lambda>r. r ! ic = Str s) (rows f)) \<and>
              trace_y ((?t # ts) ! k) = map (\<lambda>r. r ! ir) (filter (\<lambda>r. r ! ic = Str s) (rows f))"
    if "k < length (c # cl)" for k
  proof (cases k)
    case 0
    with c show ?thesis by simp
  next
    case (Suc k')
    with that tsk show ?thesis by simp
  qed
  with eq ts(2) show ?case by auto
qed


section \<open>The claims of the specification\<close>

subsection \<open>Loading\<close>

text \<open>
  C1. The loader on a file that lacks a required column. The file \<open>raw_sin_campana\<close> has
  every expected column but the campaign name: \<open>rename\<close> ignores the absent label and the
  \<open>try\<close> block reads only the results, impressions and spend columns, so the loader
  returns the whole table and shows no message; the run then ends in the sidebar
  (line 62) with a KeyError that nothing catches. The sibling case, a file without the
  results column, is handled as the claim says: the KeyError is caught, a message is
  shown and the empty table is returned.
\<close>

theorem cargar_datos_absent_campaign_column:
  "Nombre_de_la_campana \<in> set expected_columns \<and>
   Nombre_de_la_campana \<notin> set (columns raw_sin_campana) \<and>
   cargar_datos (Inr raw_sin_campana) = Inr ([], df_sin_campana) \<and>
   \<not> df_empty df_sin_campana \<and>
   app (Inr raw_sin_campana) argsort_stable Plotly [] 0 0 = Raised [] (KeyError campana) \<and>
   Resultados \<in> set expected_columns \<and>
   Resultados \<notin> set (columns raw_sin_resultados) \<and>
   cargar_datos (Inr raw_sin_resultados) = Inr ([St_error (KeyError resultados)], DataFrame)"
proof -
  have 1: "Nombre_de_la_campana \<in> set expected_columns" "Resultados \<in> set expected_columns"
    by (simp_all add: expected_columns_def rename_map_def)
  have 2: "Nombre_de_la_campana \<notin> set (columns raw_sin_campana)"
    by (simp add: raw_sin_campana_def label_defs)
  have 3: "cargar_datos (Inr raw_sin_campana) = Inr ([], df_sin_campana)"
    by (simp add: cargar_datos_def cargar_body_def raw_sin_campana_def df_sin_campana_def
        rename_def rename_map_def getitem_def setitem_def series_truediv_def series_mul_def
        label_defs)
  have 4: "\<not> df_empty df_sin_campana"
    by (simp add: df_empty_def df_sin_campana_def)
  have "sidebar df_sin_campana = Inl (KeyError campana)"
    by (simp add: sidebar_def getitem_def df_sin_campana_def label_defs)
  with 3 4 have 5: "app (Inr raw_sin_campana) argsort_stable Plotly [] 0 0 = Raised [] (KeyError campana)"
    by (simp add: app_def)
  have 6: "Resultados \<notin> set (columns raw_sin_resultados)"
    by (simp add: raw_sin_resultados_def label_defs)
  have 7: "cargar_datos (Inr raw_sin_resultados) = Inr ([St_error (KeyError resultados)], DataFrame)"
    by (simp add: cargar_datos_def cargar_body_def raw_sin_resultados_def rename_def
        rename_map_def getitem_def label_defs)
  from 1 2 3 4 5 6 7 show ?thesis by (intro conjI)
qed


subsection \<open>Derived fields\<close>




subsection \<open>Filtering\<close>

text \<open>
  C3. For every table with a campaign column and two date columns, every list of selected
  campaigns and every selected start and end, the filtered table has the columns of the
  table and exactly its rows that are in the selection, in their order: the campaign is
  one of the selected ones, the report starts on or after the selected start and ends
  on or before the selected end.
\<close>

theorem df_filtrado_exactly_selection:
  assumes "campana \<in> set (columns df)"
    and "date_column df Inicio_del_informe"
    and "date_column df Fin_del_informe"
  shows "df_filtrado df sel a b = Inr (df\<lparr>rows := filter (in_selection df sel a b) (rows df)\<rparr>)"
  using assms by (simp add: df_filtrado_iff)

theorem df_filtrado_exactly_selection_witness:
  "campana \<in> set (columns df_ejemplo) \<and>
   date_column df_ejemplo Inicio_del_informe \<and>
   date_column df_ejemplo Fin_del_informe \<and>
   df_filtrado df_ejemplo [Str (str ''Meta: Ventas'')] 0 5 =
     Inr (df_ejemplo\<lparr>rows :=
       filter (in_selection df_ejemplo [Str (str ''Meta: Ventas'')] 0 5) (rows df_ejemplo)\<rparr>) \<and>
   filter (in_selection df_ejemplo [Str (str ''Meta: Ventas'')] 0 5) (rows df_ejemplo) =
     [[Str (str ''Meta: Ventas''), Date 1, Date 2, Num (Fin 50), Num (Fin 20), Num (Fin 500),
       Num (Fin 400), Num (Fin 5), NaT, Num (Fin 4), Num (Fin 100)]]"
proof -
  have h1: "campana \<in> set (columns df_ejemplo)"
    by (simp add: df_ejemplo_def label_defs)
  have h2: "date_column df_ejemplo Inicio_del_informe"
    by (simp add: df_ejemplo_def date_column_def getitem_def label_defs)
  have h3: "date_column df_ejemplo Fin_del_informe"
    by (simp add: df_ejemplo_def date_column_def getitem_def label_defs)
  have r: "filter (in_selection df_ejemplo [Str (str ''Meta: Ventas'')] 0 5) (rows df_ejemplo) =
     [[Str (str ''Meta: Ventas''), Date 1, Date 2, Num (Fin 50), Num (Fin 20), Num (Fin 500),
       Num (Fin 400), Num (Fin 5), NaT, Num (Fin 4), Num (Fin 100)]]"
    by (simp add: in_selection_def row_get_def df_ejemplo_def label_defs)
  from h1 h2 h3 r df_filtrado_exactly_selection [OF h1 h2 h3, of "[Str (str ''Meta: Ventas'')]" 0 5]
  show ?thesis by (intro conjI)
qed


subsection \<open>Bar chart\<close>

text \<open>
  C4 as stated fails: the table given to \<open>px.bar\<close> is not aggregated. For the example
  table with every row selected it has three rows, two of them of the campaign
  "Meta: Ventas" (with results 20 and 10, not one entry with the total 30), for two
  distinct campaigns.
\<close>

theorem bar_input_counterexample:
  "argsort_contract argsort_stable \<and>
   df_filtrado df_ejemplo [Str (str ''Meta: Ventas''), Str (str ''Meta: Marca'')] 0 10 = Inr df_ejemplo \<and>
   \<not> df_empty df_ejemplo \<and>
   bar_input argsort_stable df_ejemplo =
     Inr (df_ejemplo\<lparr>rows := [rows df_ejemplo ! 2, rows df_ejemplo ! 0, rows df_ejemplo ! 1]\<rparr>) \<and>
   getitem (df_ejemplo\<lparr>rows := [rows df_ejemplo ! 2, rows df_ejemplo ! 0, rows df_ejemplo ! 1]\<rparr>)
     campana = Inr [Str (str ''Meta: Ventas''), Str (str ''Meta: Ventas''), Str (str ''Meta: Marca'')] \<and>
   getitem (df_ejemplo\<lparr>rows := [rows df_ejemplo ! 2, rows df_ejemplo ! 0, rows df_ejemplo ! 1]\<rparr>)
     resultados = Inr [Num (Fin 20), Num (Fin 10), Num (Fin 5)] \<and>
   \<not> distinct [Str (str ''Meta: Ventas''), Str (str ''Meta: Ventas''), Str (str ''Meta: Marca'')] \<and>
   unique [Str (str ''Meta: Ventas''), Str (str ''Meta: Ventas''), Str (str ''Meta: Marca'')] =
     [Str (str ''Meta: Ventas''), Str (str ''Meta: Marca'')]"
proof -
  have "filter (in_selection df_ejemplo [Str (str ''Meta: Ventas''), Str (str ''Meta: Marca'')] 0 10)
      (rows df_ejemplo) = rows df_ejemplo"
    by (simp add: in_selection_def row_get_def df_ejemplo_def label_defs)
  then have 1: "df_filtrado df_ejemplo [Str (str ''Meta: Ventas''), Str (str ''Meta: Marca'')] 0 10 =
      Inr df_ejemplo"
    by (simp add: df_filtrado_iff df_ejemplo_columns)
  have 2: "\<not> df_empty df_ejemplo"
    by (simp add: df_empty_def df_ejemplo_def)
  have k: "getitem df_ejemplo resultados = Inr [Num (Fin 10), Num (Fin 5), Num (Fin 20)]"
    by (simp add: getitem_def df_ejemplo_def label_defs)
  have n: "nargsort argsort_stable False [Fin 10, Fin 5, Fin 20] = [2, 0, 1]"
    by code_simp
  have 3: "bar_input argsort_stable df_ejemplo =
     Inr (df_ejemplo\<lparr>rows := [rows df_ejemplo ! 2, rows df_ejemplo ! 0, rows df_ejemplo ! 1]\<rparr>)"
    by (simp add: bar_input_def sort_values_def k n)
  have 4: "getitem (df_ejemplo\<lparr>rows := [rows df_ejemplo ! 2, rows df_ejemplo ! 0, rows df_ejemplo ! 1]\<rparr>)
     campana = Inr [Str (str ''Meta: Ventas''), Str (str ''Meta: Ventas''), Str (str ''Meta: Marca'')]"
    by (simp add: getitem_def df_ejemplo_def label_defs)
  have 5: "getitem (df_ejemplo\<lparr>rows := [rows df_ejemplo ! 2, rows df_ejemplo ! 0, rows df_ejemplo ! 1]\<rparr>)
     resultados = Inr [Num (Fin 20), Num (Fin 10), Num (Fin 5)]"
    by (simp add: getitem_def df_ejemplo_def label_defs)
  have 6: "\<not> distinct [Str (str ''Meta: Ventas''), Str (str ''Meta: Ventas''), Str (str ''Meta: Marca'')]"
    by simp
  have 7: "unique [Str (str ''Meta: Ventas''), Str (str ''Meta: Ventas''), Str (str ''Meta: Marca'')] =
     [Str (str ''Meta: Ventas''), Str (str ''Meta: Marca'')]"
    by (simp add: unique_def str_def)
  from argsort_contract_stable 1 2 3 4 5 6 7 show ?thesis by (intro conjI)
qed

text \<open>
  C4, amended. For every filtered table with numeric results, and every sort that meets
  the contract of numpy's default sort, the table given to the bar chart has the
  columns of the filtered table and the same rows, one entry per row, ordered by
  results descending with the rows of missing results last. With the campaign and
  spend columns present the chart is drawn from it.
\<close>

theorem bar_input_rows_by_results:
  assumes "argsort_contract argsort"
    and "numeric_column f resultados"
    and "campana \<in> set (columns f)"
    and "gasto \<in> set (columns f)"
  shows "\<exists>s ks. bar_input argsort f = Inr s \<and> tab2 argsort f = Inr (Bar_chart s) \<and>
           columns s = columns f \<and> mset (rows s) = mset (rows f) \<and>
           getitem s resultados = Inr (map Num ks) \<and> descending_nan_last ks"
proof -
  from assms(2) obtain ks0 where k: "getitem f resultados = Inr (map Num ks0)"
    by (blast dest: numeric_columnD)
  from sort_values_descending [OF assms(1) k] obtain s ks where
    s: "sort_values argsort f resultados False = Inr s" "columns s = columns f"
      "mset (rows s) = mset (rows f)" "getitem s resultados = Inr (map Num ks)"
      "descending_nan_last ks"
    by blast
  from k have "resultados \<in> set (columns f)"
    by (auto simp: getitem_Inr dest: col_index_Some_mem)
  with s assms(3,4) have "tab2 argsort f = Inr (Bar_chart s)"
    by (simp add: tab2_def bar_input_def px_columns_def)
  with s show ?thesis
    by (auto simp: bar_input_def)
qed

theorem bar_input_rows_by_results_witness:
  "argsort_contract argsort_stable \<and>
   numeric_column df_ejemplo resultados \<and>
   campana \<in> set (columns df_ejemplo) \<and>
   gasto \<in> set (columns df_ejemplo) \<and>
   (\<exists>s ks. bar_input argsort_stable df_ejemplo = Inr s \<and>
      tab2 argsort_stable df_ejemplo = Inr (Bar_chart s) \<and>
      columns s = columns df_ejemplo \<and> mset (rows s) = mset (rows df_ejemplo) \<and>
      getitem s resultados = Inr (map Num ks) \<and> descending_nan_last ks)"
proof -
  have h2: "numeric_column df_ejemplo resultados"
    by (simp add: numeric_column_def getitem_def df_ejemplo_def label_defs)
  have h3: "campana \<in> set (columns df_ejemplo)"
    by (simp add: df_ejemplo_def label_defs)
  have h4: "gasto \<in> set (columns df_ejemplo)"
    by (simp add: df_ejemplo_def label_defs)
  from argsort_contract_stable h2 h3 h4
    bar_input_rows_by_results [OF argsort_contract_stable h2 h3 h4]
  show ?thesis by (intro conjI)
qed


subsection \<open>Detail table\<close>





subsection \<open>Time series\<close>

text \<open>
  C6 as stated fails in its last part: the loop of lines 149-158 takes the rows of each
  campaign in the order of the table and does not sort them by date. In the example
  table the later report of "Meta: Ventas" comes first, and so it does in its trace.
\<close>

theorem time_series_counterexample:
  "df_filtrado df_ejemplo [Str (str ''Meta: Ventas''), Str (str ''Meta: Marca'')] 0 10 = Inr df_ejemplo \<and>
   \<not> df_empty df_ejemplo \<and>
   time_series Plotly df_ejemplo =
     Inr [\<lparr>trace_x = [Date 8, Date 1], trace_y = [Num (Fin 10), Num (Fin 20)],
           trace_name = str ''Ventas'', trace_color = ''#636EFA''\<rparr>,
          \<lparr>trace_x = [Date 3], trace_y = [Num (Fin 5)],
           trace_name = str ''Marca'', trace_color = ''#EF553B''\<rparr>] \<and>
   \<not> chronological [Date 8, Date 1]"
proof -
  have "filter (in_selection df_ejemplo [Str (str ''Meta: Ventas''), Str (str ''Meta: Marca'')] 0 10)
      (rows df_ejemplo) = rows df_ejemplo"
    by (simp add: in_selection_def row_get_def df_ejemplo_def label_defs)
  then have 1: "df_filtrado df_ejemplo [Str (str ''Meta: Ventas''), Str (str ''Meta: Marca'')] 0 10 =
      Inr df_ejemplo"
    by (simp add: df_filtrado_iff df_ejemplo_columns)
  have 2: "\<not> df_empty df_ejemplo"
    by (simp add: df_empty_def df_ejemplo_def)
  have 3: "time_series Plotly df_ejemplo =
     Inr [\<lparr>trace_x = [Date 8, Date 1], trace_y = [Num (Fin 10), Num (Fin 20)],
           trace_name = str ''Ventas'', trace_color = ''#636EFA''\<rparr>,
          \<lparr>trace_x = [Date 3], trace_y = [Num (Fin 5)],
           trace_name = str ''Marca'', trace_color = ''#EF553B''\<rparr>]"
    by (simp add: time_series_def getitem_def unique_def boolean_index_def py_index_def Plotly_def
        format_func_def py_strip_def py_isspace_def colon_def df_ejemplo_def label_defs)
  have 4: "\<not> chronological [Date 8, Date 1]"
    by (simp add: chronological_def)
  from 1 2 3 4 show ?thesis by (intro conjI)
qed

text \<open>
  C6, amended. For every filtered table whose campaigns are strings, no more of them
  than there are colours, the chart has exactly one trace per distinct campaign of the
  table, in order of first appearance, named by the campaign's label; the points of a
  trace are the report starts and the results of the rows of that campaign, in the
  order of the table.
\<close>

theorem time_series_one_trace_per_campaign:
  assumes "str_column f campana"
    and "Inicio_del_informe \<in> set (columns f)"
    and "resultados \<in> set (columns f)"
    and "length (campaigns f) \<le> length color_sequence"
  shows "\<exists>ts ic ii ir.
           col_index campana (columns f) = Some ic \<and>
           col_index Inicio_del_informe (columns f) = Some ii \<and>
           col_index resultados (columns f) = Some ir \<and>
           time_series color_sequence f = Inr ts \<and>
           tab3 color_sequence f = Inr (Line_chart ts) \<and>
           length ts = length (campaigns f) \<and> distinct (campaigns f) \<and>
           set (campaigns f) = (\<lambda>r. r ! ic) ` set (rows f) \<and>
           (\<forall>k < length ts. \<exists>s. campaigns f ! k = Str s \<and>
              trace_name (ts ! k) = format_func s \<and>
              trace_color (ts ! k) = color_sequence ! k \<and>
              trace_x (ts ! k) = map (\<lambda>r. r ! ii) (filter (\<lambda>r. r ! ic = Str s) (rows f)) \<and>
              trace_y (ts ! k) = map (\<lambda>r. r ! ir) (filter (\<lambda>r. r ! ic = Str s) (rows f)))"
proof -
  from assms(1) obtain ic where ic: "col_index campana (columns f) = Some ic"
    and strs: "list_all is_str (map (\<lambda>r. r ! ic) (rows f))"
    by (auto simp: str_column_def getitem_def split: option.splits)
  from assms(2,3) obtain ii ir where ii: "col_index Inicio_del_informe (columns f) = Some ii"
    and ir: "col_index resultados (columns f) = Some ir"
    by (meson col_index_mem)
  let ?c = "map (\<lambda>r. r ! ic) (rows f)"
  from ic have get: "getitem f campana = Inr ?c"
    by (simp add: getitem_def)
  then have camp: "campaigns f = unique ?c"
    by (simp add: campaigns_def)
  from strs have "list_all is_str (unique ?c)"
    by (simp add: list_all_iff unique_props)
  moreover from assms(4) camp have "0 + length (unique ?c) \<le> length color_sequence"
    by simp
  ultimately obtain ts where
    ts: "add_traces color_sequence f 0 (unique ?c) = Inr ts" "length ts = length (unique ?c)" and
    tsk: "\<forall>k < length (unique ?c). \<exists>s. unique ?c ! k = Str s \<and>
              trace_name (ts ! k) = format_func s \<and>
              trace_color (ts ! k) = color_sequence ! (0 + k) \<and>
              trace_x (ts ! k) = map (\<lambda>r. r ! ii) (filter (\<lambda>r. r ! ic = Str s) (rows f)) \<and>
              trace_y (ts ! k) = map (\<lambda>r. r ! ir) (filter (\<lambda>r. r ! ic = Str s) (rows f))"
    using add_traces_ok [OF ic ii ir] by blast
  from get ts(1) have run: "time_series color_sequence f = Inr ts"
    "tab3 color_sequence f = Inr (Line_chart ts)"
    by (simp_all add: time_series_def tab3_def)
  have u: "distinct (campaigns f)" "set (campaigns f) = (\<lambda>r. r ! ic) ` set (rows f)"
    by (simp_all add: camp unique_props)
  from ic ii ir run ts(2) tsk u camp show ?thesis
    by (intro exI [of _ ts] exI [of _ ic] exI [of _ ii] exI [of _ ir]) simp
qed

theorem time_series_one_trace_per_campaign_witness:
  "str_column df_ejemplo campana \<and>
   Inicio_del_informe \<in> set (columns df_ejemplo) \<and>
   resultados \<in> set (columns df_ejemplo) \<and>
   length (campaigns df_ejemplo) \<le> length Plotly \<and>
   (\<exists>ts ic ii ir.
      col_index campana (columns df_ejemplo) = Some ic \<and>
      col_index Inicio_del_informe (columns df_ejemplo) = Some ii \<and>
      col_index resultados (columns df_ejemplo) = Some ir \<and>
      time_series Plotly df_ejemplo = Inr ts \<and>
      tab3 Plotly df_ejemplo = Inr (Line_chart ts) \<and>
      length ts = length (campaigns df_ejemplo) \<and> distinct (campaigns df_ejemplo) \<and>
      set (campaigns df_ejemplo) = (\<lambda>r. r ! ic) ` set (rows df_ejemplo) \<and>
      (\<forall>k < length ts. \<exists>s. campaigns df_ejemplo ! k = Str s \<and>
         trace_name (ts ! k) = format_func s \<and>
         trace_color (ts ! k) = Plotly ! k \<and>
         trace_x (ts ! k) = map (\<lambda>r. r ! ii) (filter (\<lambda>r. r ! ic = Str s) (rows df_ejemplo)) \<and>
         trace_y (ts ! k) = map (\<lambda>r. r ! ir) (filter (\<lambda>r. r ! ic = Str s) (rows df_ejemplo))))"
proof -
  have h1: "str_column df_ejemplo campana"
    by (simp add: str_column_def getitem_def df_ejemplo_def label_defs)
  have h2: "Inicio_del_informe \<in> set (columns df_ejemplo)"
    by (simp add: df_ejemplo_def label_defs)
  have h3: "resultados \<in> set (columns df_ejemplo)"
    by (simp add: df_ejemplo_def label_defs)
  have h4: "length (campaigns df_ejemplo) \<le> length Plotly"
    by (simp add: campaigns_def getitem_def unique_def Plotly_def df_ejemplo_def label_defs)
  from h1 h2 h3 h4 time_series_one_trace_per_campaign [OF h1 h2 h3 h4]
  show ?thesis by (intro conjI)
qed


subsection \<open>Empty selection\<close>




subsection \<open>Means over rows without impressions\<close>

text \<open>
  C8 as stated fails. In the example table the second row has no impressions and five
  results, so its CTR is \<open>+inf\<close>; with every row selected the mean CTR shown is \<open>+inf\<close>.
  That is neither the mean of the finite values (5/2) nor the mean with the non-finite
  value counted as zero (5/3): \<open>mean()\<close> leaves out NaN only.
\<close>

theorem mean_CTR_counterexample:
  "cargar_datos (Inr raw_ejemplo) = Inr ([], df_ejemplo) \<and>
   df_filtrado df_ejemplo [Str (str ''Meta: Ventas''), Str (str ''Meta: Marca'')] 0 10 = Inr df_ejemplo \<and>
   cell_at df_ejemplo 1 impresiones = Some (Num (Fin 0)) \<and>
   getitem df_ejemplo CTR = Inr (map Num [Fin 1, PInf, Fin 4]) \<and>
   metric_mean ''CTR Promedio'' df_ejemplo CTR = Inr (Metric ''CTR Promedio'' PInf) \<and>
   mean_excluding [Fin 1, PInf, Fin 4] = Fin (5 / 2) \<and>
   mean_zeroing [Fin 1, PInf, Fin 4] = Fin (5 / 3) \<and>
   nanmean [Fin 1, PInf, Fin 4] \<noteq> mean_excluding [Fin 1, PInf, Fin 4] \<and>
   nanmean [Fin 1, PInf, Fin 4] \<noteq> mean_zeroing [Fin 1, PInf, Fin 4]"
proof -
  have "filter (in_selection df_ejemplo [Str (str ''Meta: Ventas''), Str (str ''Meta: Marca'')] 0 10)
      (rows df_ejemplo) = rows df_ejemplo"
    by (simp add: in_selection_def row_get_def df_ejemplo_def label_defs)
  then have 1: "df_filtrado df_ejemplo [Str (str ''Meta: Ventas''), Str (str ''Meta: Marca'')] 0 10 =
      Inr df_ejemplo"
    by (simp add: df_filtrado_iff df_ejemplo_columns)
  have 2: "cell_at df_ejemplo 1 impresiones = Some (Num (Fin 0))"
    by (simp add: cell_at_def df_ejemplo_def label_defs)
  have 3: "getitem df_ejemplo CTR = Inr (map Num [Fin 1, PInf, Fin 4])"
    by (simp add: getitem_def df_ejemplo_def label_defs)
  have 4: "nanmean [Fin 1, PInf, Fin 4] = PInf"
    by (simp add: nanmean_def)
  from 3 4 have 5: "metric_mean ''CTR Promedio'' df_ejemplo CTR = Inr (Metric ''CTR Promedio'' PInf)"
    by (simp add: metric_mean_def series_mean_Num del: list.map)
  have 6: "mean_excluding [Fin 1, PInf, Fin 4] = Fin (5 / 2)"
    by (simp add: mean_excluding_def)
  have 7: "mean_zeroing [Fin 1, PInf, Fin 4] = Fin (5 / 3)"
    by (simp add: mean_zeroing_def)
  from 4 6 7 have 8: "nanmean [Fin 1, PInf, Fin 4] \<noteq> mean_excluding [Fin 1, PInf, Fin 4]"
    "nanmean [Fin 1, PInf, Fin 4] \<noteq> mean_zeroing [Fin 1, PInf, Fin 4]"
    by simp_all
  from cargar_datos_raw_ejemplo 1 2 3 5 6 7 8 show ?thesis by (intro conjI)
qed

text \<open>
  C8, amended. For every table filtered from a loaded one, the CTR and CPM columns are
  numeric and the CTR and CPM of a row with impressions = 0 are not finite; the two mean
  key figures are computed without an exception; the mean leaves out NaN values, and an
  infinite value in the column is not left out: the mean is then not finite.
\<close>

theorem mean_kpis_with_zero_impressions:
  assumes "aligned data"
    and "distinct (columns (rename rename_map data))"
    and "numeric_column (rename rename_map data) resultados"
    and "numeric_column (rename rename_map data) impresiones"
    and "numeric_column (rename rename_map data) gasto"
    and "cargar_datos (Inr data) = Inr (shown, df)"
    and "df_filtrado df sel a b = Inr f"
  shows "\<exists>cs ps. getitem f CTR = Inr (map Num cs) \<and> getitem f CPM = Inr (map Num ps) \<and>
      (\<forall>k < length (rows f).
         cell_at f k impresiones = Some (Num (Fin 0)) \<longrightarrow> \<not> isfinite (cs ! k) \<and> \<not> isfinite (ps ! k)) \<and>
      metric_mean ''CTR Promedio'' f CTR = Inr (Metric ''CTR Promedio'' (nanmean cs)) \<and>
      metric_mean ''CPM Promedio'' f CPM = Inr (Metric ''CPM Promedio'' (nanmean ps)) \<and>
      nanmean cs = nanmean (filter (\<lambda>v. \<not> isnan v) cs) \<and>
      nanmean ps = nanmean (filter (\<lambda>v. \<not> isnan v) ps) \<and>
      ((\<exists>v \<in> set cs. v = PInf \<or> v = NInf) \<longrightarrow> \<not> isfinite (nanmean cs)) \<and>
      ((\<exists>v \<in> set ps. v = PInf \<or> v = NInf) \<longrightarrow> \<not> isfinite (nanmean ps))"
proof -
  from cargar_datos_rows [OF assms(1,3,4,5,6)] obtain ir ii ig ic ip where
    idx: "col_index impresiones (columns df) = Some ii" "col_index CTR (columns df) = Some ic"
      "col_index CPM (columns df) = Some ip" and
    rws: "\<forall>r \<in> set (rows df). \<exists>res imp gas.
        r ! ir = Num res \<and> r ! ii = Num imp \<and> r ! ig = Num gas \<and>
        r ! ic = Num (fmul (fdiv res imp) (Fin 100)) \<and>
        r ! ip = Num (fmul (fdiv gas imp) (Fin 1000))"
    by blast
  from assms(7) have f: "columns f = columns df" "set (rows f) \<subseteq> set (rows df)"
    by (auto simp: df_filtrado_iff)
  have "list_all is_number (map (\<lambda>r. r ! ic) (rows f))" "list_all is_number (map (\<lambda>r. r ! ip) (rows f))"
    using rws f(2) by (fastforce simp: list_all_iff)+
  then obtain cs ps where cs: "map (\<lambda>r. r ! ic) (rows f) = map Num cs"
    and ps: "map (\<lambda>r. r ! ip) (rows f) = map Num ps"
    by (blast dest: list_all_is_number)
  from cs ps idx f(1) have get: "getitem f CTR = Inr (map Num cs)" "getitem f CPM = Inr (map Num ps)"
    by (simp_all add: getitem_def)
  have zero: "\<not> isfinite (cs ! k) \<and> \<not> isfinite (ps ! k)"
    if k: "k < length (rows f)" and z: "cell_at f k impresiones = Some (Num (Fin 0))" for k
  proof -
    from k f(2) have "rows f ! k \<in> set (rows df)" by auto
    with rws obtain res imp gas where
      r: "rows f ! k ! ii = Num imp"
        "rows f ! k ! ic = Num (fmul (fdiv res imp) (Fin 100))"
        "rows f ! k ! ip = Num (fmul (fdiv gas imp) (Fin 1000))"
      by blast
    from z k idx f(1) r have imp: "imp = Fin 0"
      by (simp add: cell_at_def)
    from cs k have "rows f ! k ! ic = Num (cs ! k)"
      by (metis length_map nth_map)
    moreover from ps k have "rows f ! k ! ip = Num (ps ! k)"
      by (metis length_map nth_map)
    ultimately have "cs ! k = fmul (fdiv res (Fin 0)) (Fin 100)"
      "ps ! k = fmul (fdiv gas (Fin 0)) (Fin 1000)"
      using r imp by simp_all
    then show ?thesis
      by (simp only: ratio_zero_divisor simp_thms)
  qed
  from get have m: "metric_mean ''CTR Promedio'' f CTR = Inr (Metric ''CTR Promedio'' (nanmean cs))"
    "metric_mean ''CPM Promedio'' f CPM = Inr (Metric ''CPM Promedio'' (nanmean ps))"
    by (simp_all add: metric_mean_def series_mean_Num)
  have n: "nanmean cs = nanmean (filter (\<lambda>v. \<not> isnan v) cs)"
    "nanmean ps = nanmean (filter (\<lambda>v. \<not> isnan v) ps)"
    by (rule nanmean_skips_nan)+
  have inf: "(\<exists>v \<in> set cs. v = PInf \<or> v = NInf) \<longrightarrow> \<not> isfinite (nanmean cs)"
    "(\<exists>v \<in> set ps. v = PInf \<or> v = NInf) \<longrightarrow> \<not> isfinite (nanmean ps)"
    using nanmean_infinite by blast+
  from get zero m n inf show ?thesis by blast
qed

theorem mean_kpis_with_zero_impressions_witness:
  "aligned raw_ejemplo \<and>
   distinct (columns (rename rename_map raw_ejemplo)) \<and>
   numeric_column (rename rename_map raw_ejemplo) resultados \<and>
   numeric_column (rename rename_map raw_ejemplo) impresiones \<and>
   numeric_column (rename rename_map raw_ejemplo) gasto \<and>
   cargar_datos (Inr raw_ejemplo) = Inr ([], df_ejemplo) \<and>
   df_filtrado df_ejemplo [Str (str ''Meta: Ventas''), Str (str ''Meta: Marca'')] 0 10 = Inr df_ejemplo \<and>
   (\<exists>cs ps. getitem df_ejemplo CTR = Inr (map Num cs) \<and> getitem df_ejemplo CPM = Inr (map Num ps) \<and>
      (\<forall>k < length (rows df_ejemplo).
         cell_at df_ejemplo k impresiones = Some (Num (Fin 0)) \<longrightarrow>
           \<not> isfinite (cs ! k) \<and> \<not> isfinite (ps ! k)) \<and>
      metric_mean ''CTR Promedio'' df_ejemplo CTR = Inr (Metric ''CTR Promedio'' (nanmean cs)) \<and>
      metric_mean ''CPM Promedio'' df_ejemplo CPM = Inr (Metric ''CPM Promedio'' (nanmean ps)) \<and>
      nanmean cs = nanmean (filter (\<lambda>v. \<not> isnan v) cs) \<and>
      nanmean ps = nanmean (filter (\<lambda>v. \<not> isnan v) ps) \<and>
      ((\<exists>v \<in> set cs. v = PInf \<or> v = NInf) \<longrightarrow> \<not> isfinite (nanmean cs)) \<and>
      ((\<exists>v \<in> set ps. v = PInf \<or> v = NInf) \<longrightarrow> \<not> isfinite (nanmean ps)))"
proof -
  have h1: "aligned raw_ejemplo"
    by (simp add: aligned_def raw_ejemplo_def)
  have h2: "distinct (columns (rename rename_map raw_ejemplo))"
    by (simp add: rename_def rename_map_def raw_ejemplo_def label_defs)
  have h3: "numeric_column (rename rename_map raw_ejemplo) resultados"
    by (simp add: numeric_column_def getitem_def rename_def rename_map_def raw_ejemplo_def label_defs)
  have h4: "numeric_column (rename rename_map raw_ejemplo) impresiones"
    by (simp add: numeric_column_def getitem_def rename_def rename_map_def raw_ejemplo_def label_defs)
  have h5: "numeric_column (rename rename_map raw_ejemplo) gasto"
    by (simp add: numeric_column_def getitem_def rename_def rename_map_def raw_ejemplo_def label_defs)
  have "filter (in_selection df_ejemplo [Str (str ''Meta: Ventas''), Str (str ''Meta: Marca'')] 0 10)
      (rows df_ejemplo) = rows df_ejemplo"
    by (simp add: in_selection_def row_get_def df_ejemplo_def label_defs)
  then have h7: "df_filtrado df_ejemplo [Str (str ''Meta: Ventas''), Str (str ''Meta: Marca'')] 0 10 =
      Inr df_ejemplo"
    by (simp add: df_filtrado_iff df_ejemplo_columns)
  from h1 h2 h3 h4 h5 cargar_datos_raw_ejemplo h7
    mean_kpis_with_zero_impressions [OF h1 h2 h3 h4 h5 cargar_datos_raw_ejemplo h7]
  show ?thesis by (intro conjI)
qed


subsection \<open>Idempotence of the filter\<close>

text \<open>
  C9. Filtering is idempotent: for every such table and selection the filter returns a
  table, and the same filter applied to that table returns it unchanged.
\<close>

theorem df_filtrado_idempotent:
  assumes "campana \<in> set (columns df)"
    and "date_column df Inicio_del_informe"
    and "date_column df Fin_del_informe"
  shows "\<exists>f. df_filtrado df sel a b = Inr f \<and> df_filtrado f sel a b = Inr f"
proof -
  let ?f = "df\<lparr>rows := filter (in_selection df sel a b) (rows df)\<rparr>"
  from assms have 1: "df_filtrado df sel a b = Inr ?f"
    by (simp add: df_filtrado_iff)
  have "in_selection ?f sel a b = in_selection df sel a b"
    by (rule in_selection_columns) simp
  with assms have 2: "df_filtrado ?f sel a b = Inr ?f"
    by (simp add: df_filtrado_iff date_column_filter)
  from 1 2 show ?thesis by blast
qed

theorem df_filtrado_idempotent_witness:
  "campana \<in> set (columns df_ejemplo) \<and>
   date_column df_ejemplo Inicio_del_informe \<and>
   date_column df_ejemplo Fin_del_informe \<and>
   (\<exists>f. df_filtrado df_ejemplo [Str (str ''Meta: Ventas'')] 0 5 = Inr f \<and>
        df_filtrado f [Str (str ''Meta: Ventas'')] 0 5 = Inr f)"
proof -
  have h1: "campana \<in> set (columns df_ejemplo)"
    by (simp add: df_ejemplo_def label_defs)
  have h2: "date_column df_ejemplo Inicio_del_informe"
    by (simp add: df_ejemplo_def date_column_def getitem_def label_defs)
  have h3: "date_column df_ejemplo Fin_del_informe"
    by (simp add: df_ejemplo_def date_column_def getitem_def label_defs)
  from h1 h2 h3 df_filtrado_idempotent [OF h1 h2 h3, of "[Str (str ''Meta: Ventas'')]" 0 5]
  show ?thesis by (intro conjI)
qed


subsection \<open>Campaign labels\<close>

text \<open>
  C10. For every campaign name, the label shown in the multiselect and used as the name of
  the trace is the part of the name after its last colon with the surrounding whitespace
  stripped (first conjunct: \<open>suf\<close> holds no colon, so the colon before it is the last one).
  For a name without a colon the label is the whole name stripped, and it is empty only
  when every character of the name is whitespace (second conjunct). The third conjunct
  says what stripping is: of a string made of whitespace \<open>l\<close>, a core \<open>m\<close> that neither
  starts nor ends with whitespace, and whitespace \<open>r\<close>, the core remains. The last one is
  the trace name of line 154, the same function applied to the campaign of the trace.
\<close>

theorem format_func_after_last_colon:
  "(colon \<notin> set suf \<longrightarrow> format_func (pre @ colon # suf) = py_strip suf) \<and>
   (colon \<notin> set x \<longrightarrow>
      format_func x = py_strip x \<and> (format_func x = [] \<longleftrightarrow> (\<forall>c \<in> set x. py_isspace c))) \<and>
   ((\<forall>c \<in> set l. py_isspace c) \<and> (\<forall>c \<in> set r. py_isspace c) \<and>
    (m = [] \<or> (\<not> py_isspace (hd m) \<and> \<not> py_isspace (last m))) \<longrightarrow> py_strip (l @ m @ r) = m) \<and>
   cell_label (Str x) = Inr (format_func x)"
proof -
  have a: "colon \<notin> set suf \<longrightarrow> format_func (pre @ colon # suf) = py_strip suf"
    by (simp add: format_func_def last_py_split_append py_split_no_sep)
  have b: "colon \<notin> set x \<longrightarrow>
      format_func x = py_strip x \<and> (format_func x = [] \<longleftrightarrow> (\<forall>c \<in> set x. py_isspace c))"
    by (simp add: format_func_def py_split_no_sep py_strip_Nil_iff)
  have c: "(\<forall>c \<in> set l. py_isspace c) \<and> (\<forall>c \<in> set r. py_isspace c) \<and>
    (m = [] \<or> (\<not> py_isspace (hd m) \<and> \<not> py_isspace (last m))) \<longrightarrow> py_strip (l @ m @ r) = m"
    using py_strip_core [of l r m] by blast
  have d: "cell_label (Str x) = Inr (format_func x)"
    by simp
  from a b c d show ?thesis by blast
qed

theorem format_func_after_last_colon_witness:
  "colon \<notin> set (str '' Ventas  '') \<and>
   format_func (str ''Meta: junio'' @ colon # str '' Ventas  '') = py_strip (str '' Ventas  '') \<and>
   colon \<notin> set (str '' Ventas '') \<and> format_func (str '' Ventas '') = py_strip (str '' Ventas '') \<and>
   format_func (str '' Ventas '') \<noteq> [] \<and>
   py_strip (str '' '' @ str ''Ventas'' @ str ''  '') = str ''Ventas'' \<and>
   cell_label (Str (str '' Ventas '')) = Inr (format_func (str '' Ventas ''))"
  using format_func_after_last_colon
    [of "str '' Ventas  ''" "str ''Meta: junio''" "str '' Ventas ''" "str '' ''" "str ''  ''" "str ''Ventas''"]
  by (simp add: str_def colon_def py_isspace_def py_strip_def)


end
